theory Spec2Isabelle
  imports Complex_Main
begin

section \<open>The PID optimizer of Ma\_CNC (scripts/pid\_optimizer.py)\<close>

text \<open>
  The embedding follows \<^verbatim>\<open>src/scripts/pid_optimizer.py\<close>, class \<^verbatim>\<open>PIDOptimizer\<close>.
  Python floats are idealised as \<^typ>\<open>real\<close>: the properties below are about the
  algorithm (comparison, mean, square root, doubling), not about rounding.
\<close>

subsection \<open>The numpy reductions used by \<^verbatim>\<open>evaluate\<close>\<close>

text \<open>\<^verbatim>\<open>np.diff(a)\<close>: the first difference \<^verbatim>\<open>a[i+1] - a[i]\<close>, one element shorter.\<close>

fun np_diff :: "real list \<Rightarrow> real list" where
  "np_diff (x # y # zs) = (y - x) # np_diff (y # zs)"
| "np_diff zs = []"

text \<open>\<^verbatim>\<open>np.sign\<close>, elementwise: -1, 0 or 1.\<close>

definition np_sign :: "real list \<Rightarrow> real list" where
  "np_sign a = map sgn a"

text \<open>\<^verbatim>\<open>np.sum(a != 0)\<close>: the number of nonzero entries.\<close>

definition np_count_nonzero :: "real list \<Rightarrow> nat" where
  "np_count_nonzero a = length (filter (\<lambda>d. d \<noteq> 0) a)"

text \<open>\<^verbatim>\<open>np.mean\<close> of a non-empty array.\<close>

definition np_mean :: "real list \<Rightarrow> real" where
  "np_mean a = sum_list a / real (length a)"

text \<open>Line 139: \<^verbatim>\<open>rms = np.sqrt(np.mean(errors**2))\<close>.\<close>

definition rms_of :: "real list \<Rightarrow> real" where
  "rms_of errors = sqrt (np_mean (map (\<lambda>e. e ^ 2) errors))"

text \<open>Line 144: \<^verbatim>\<open>sign_changes = np.sum(np.diff(np.sign(diff)) != 0)\<close>.\<close>

definition sign_changes :: "real list \<Rightarrow> nat" where
  "sign_changes diff = np_count_nonzero (np_diff (np_sign diff))"

text \<open>
  Lines 135--148 of \<^verbatim>\<open>evaluate\<close>: the reduction of the concatenated batch
  \<^verbatim>\<open>all_errors\<close> to the returned cost.
\<close>

definition evaluate_cost :: "real list \<Rightarrow> real" where
  "evaluate_cost all_errors =
     (if all_errors = [] then 999
      else
        let errors = all_errors;
            rms = rms_of errors
        in if length errors > 20 then
             (let diff = np_diff errors
              in if real (sign_changes diff) > real (length diff) * 0.4
                 then rms * 2 else rms)
           else rms)"

subsection \<open>Exceptions, the machine interface and the optimizer object\<close>

text \<open>
  The exceptions that can cross the functions below. \<^verbatim>\<open>HalError\<close> stands for whatever
  \<^verbatim>\<open>hal.get_value\<close> or \<^verbatim>\<open>hal.set_p\<close> raise on an unreadable or unwritable pin.
\<close>

datatype exn = KeyboardInterrupt | KeyError string | IndexError | ZeroDivisionError | HalError

datatype interp = INTERP_IDLE | INTERP_READING | INTERP_PAUSED | INTERP_WAITING

datatype mode = MODE_MANUAL | MODE_AUTO | MODE_MDI

text \<open>
  The fields of \<^verbatim>\<open>linuxcnc.stat\<close> the optimizer reads after \<^verbatim>\<open>poll()\<close>;
  \<^verbatim>\<open>actual_position\<close> is cut down to its entries 0 and 1.
\<close>

record stat =
  actual_position :: "real \<times> real"
  interp_state :: interp
  task_mode :: mode

text \<open>
  The collaborators (\<^verbatim>\<open>hal\<close>, \<^verbatim>\<open>linuxcnc\<close>, \<^verbatim>\<open>time\<close>) as a deterministic
  machine over a world state \<open>'w\<close>. Reads are queries on the world; writes, commands and
  sleeping return the next world. \<^verbatim>\<open>hal.get_value\<close> and \<^verbatim>\<open>hal.set_p\<close> may raise;
  \<^verbatim>\<open>time.sleep\<close> may be cut short by the operator's Ctrl-C (\<^verbatim>\<open>KeyboardInterrupt\<close>).
  The program blocks in \<^verbatim>\<open>time.sleep\<close> and in \<^verbatim>\<open>input\<close>; these are the places where a
  Ctrl-C is taken to arrive.
  \<^verbatim>\<open>hal.set_p\<close> receives \<^verbatim>\<open>str(value)\<close>, taken here as the value itself, and
  \<^verbatim>\<open>cmd.mdi\<close> receives the text \<^verbatim>\<open>G1 X.. Y.. F..\<close>, taken here as the triple
  (x, y, feed).
\<close>

record 'w machine =
  hal_get_value :: "string \<Rightarrow> 'w \<Rightarrow> exn + real"
  hal_set_p :: "string \<Rightarrow> real \<Rightarrow> 'w \<Rightarrow> exn + 'w"
  stat_poll :: "'w \<Rightarrow> stat"
  cmd_mode :: "mode \<Rightarrow> 'w \<Rightarrow> 'w"
  cmd_wait_complete :: "'w \<Rightarrow> 'w"
  cmd_mdi :: "real \<times> real \<times> real \<Rightarrow> 'w \<Rightarrow> 'w"
  time_time :: "'w \<Rightarrow> real"
  time_sleep :: "real \<Rightarrow> 'w \<Rightarrow> exn option \<times> 'w"

type_synonym params = "string \<rightharpoonup> real"

text \<open>The attributes of a \<^verbatim>\<open>PIDOptimizer\<close> object (lines 21--36).\<close>

record optimizer =
  test_distance :: real
  test_feed :: real
  bounds :: "string \<rightharpoonup> real \<times> real"
  eval_count :: int
  best_rms :: real
  best_params :: params

definition init_optimizer :: optimizer where
  "init_optimizer =
     \<lparr> test_distance = 15,
       test_feed = 10000,
       bounds = [''P'' \<mapsto> (50, 200), ''I'' \<mapsto> (10, 150), ''D'' \<mapsto> (0, 0.01),
                 ''FF1'' \<mapsto> (0.8, 1.1), ''FF2'' \<mapsto> (0, 0.001)],
       eval_count = 0,
       best_rms = 999,
       best_params = Map.empty \<rparr>"

subsection \<open>Telemetry port: \<^verbatim>\<open>getp\<close>, \<^verbatim>\<open>setp\<close>\<close>

text \<open>Lines 38--42: a bare \<^verbatim>\<open>except\<close> turns every failure of the read into 0.\<close>

definition getp :: "'w machine \<Rightarrow> string \<Rightarrow> 'w \<Rightarrow> real" where
  "getp m name w = (case hal_get_value m name w of Inr v \<Rightarrow> v | Inl e \<Rightarrow> 0)"

text \<open>Lines 44--49: the success flag, and the world after the write.\<close>

definition setp :: "'w machine \<Rightarrow> string \<Rightarrow> real \<Rightarrow> 'w \<Rightarrow> bool \<times> 'w" where
  "setp m name v w = (case hal_set_p m name v w of Inr w' \<Rightarrow> (True, w') | Inl e \<Rightarrow> (False, w))"

text \<open>Lines 51--58.\<close>

definition get_current_params :: "'w machine \<Rightarrow> 'w \<Rightarrow> params" where
  "get_current_params m w =
     [''P'' \<mapsto> getp m ''pid.x.Pgain'' w,
      ''I'' \<mapsto> getp m ''pid.x.Igain'' w,
      ''D'' \<mapsto> getp m ''pid.x.Dgain'' w,
      ''FF1'' \<mapsto> getp m ''pid.x.FF1'' w,
      ''FF2'' \<mapsto> getp m ''pid.x.FF2'' w]"

text \<open>
  Lines 63--67, the body of the loop of \<^verbatim>\<open>apply_params\<close> for one axis. A missing key
  raises \<^verbatim>\<open>KeyError\<close> at the subscript, after the writes before it; the flag that
  \<^verbatim>\<open>setp\<close> returns is dropped.
\<close>

definition apply_params_axis :: "'w machine \<Rightarrow> params \<Rightarrow> string \<Rightarrow> 'w \<Rightarrow> (exn + unit) \<times> 'w" where
  "apply_params_axis m params axis w =
     (case params ''P'' of None \<Rightarrow> (Inl (KeyError ''P''), w) | Some p \<Rightarrow>
        let w1 = snd (setp m (''pid.'' @ axis @ ''.Pgain'') p w) in
      case params ''I'' of None \<Rightarrow> (Inl (KeyError ''I''), w1) | Some i \<Rightarrow>
        let w2 = snd (setp m (''pid.'' @ axis @ ''.Igain'') i w1) in
      case params ''D'' of None \<Rightarrow> (Inl (KeyError ''D''), w2) | Some d \<Rightarrow>
        let w3 = snd (setp m (''pid.'' @ axis @ ''.Dgain'') d w2) in
      case params ''FF1'' of None \<Rightarrow> (Inl (KeyError ''FF1''), w3) | Some f1 \<Rightarrow>
        let w4 = snd (setp m (''pid.'' @ axis @ ''.FF1'') f1 w3) in
      case params ''FF2'' of None \<Rightarrow> (Inl (KeyError ''FF2''), w4) | Some f2 \<Rightarrow>
        let w5 = snd (setp m (''pid.'' @ axis @ ''.FF2'') f2 w4) in
      (Inr (), w5))"

fun apply_params_loop :: "'w machine \<Rightarrow> params \<Rightarrow> string list \<Rightarrow> 'w \<Rightarrow> (exn + unit) \<times> 'w" where
  "apply_params_loop m params [] w = (Inr (), w)"
| "apply_params_loop m params (axis # axes) w =
     (case apply_params_axis m params axis w of
        (Inl e, w') \<Rightarrow> (Inl e, w')
      | (Inr u, w') \<Rightarrow> apply_params_loop m params axes w')"

text \<open>Lines 60--67.\<close>

definition apply_params :: "'w machine \<Rightarrow> params \<Rightarrow> 'w \<Rightarrow> (exn + unit) \<times> 'w" where
  "apply_params m params w = apply_params_loop m params [''x'', ''y''] w"

text \<open>Lines 69--71.\<close>

definition get_position :: "'w machine \<Rightarrow> 'w \<Rightarrow> real \<times> real" where
  "get_position m w = actual_position (stat_poll m w)"

subsection \<open>Motion driver: \<^verbatim>\<open>wait_ready\<close>, \<^verbatim>\<open>run_move\<close>\<close>

text \<open>
  Lines 76--81, the loop of \<^verbatim>\<open>wait_ready\<close>. Nothing in the code bounds the number of
  iterations but the clock, so the loop is a partial function: \<open>None\<close> is a loop that
  never ends.
\<close>

partial_function (option) wait_ready_loop ::
  "'w machine \<Rightarrow> real \<Rightarrow> real \<Rightarrow> 'w \<Rightarrow> ((exn + bool) \<times> 'w) option" where
  "wait_ready_loop m start timeout w =
     (if time_time m w - start < timeout then
        (if interp_state (stat_poll m w) = INTERP_IDLE then Some (Inr True, w)
         else (case time_sleep m 0.05 w of
                 (Some e, w') \<Rightarrow> Some (Inl e, w')
               | (None, w') \<Rightarrow> wait_ready_loop m start timeout w'))
      else Some (Inr False, w))"

text \<open>Lines 73--81.\<close>

definition wait_ready :: "'w machine \<Rightarrow> real \<Rightarrow> 'w \<Rightarrow> ((exn + bool) \<times> 'w) option" where
  "wait_ready m timeout w = wait_ready_loop m (time_time m w) timeout w"

text \<open>Lines 83--91.\<close>

definition run_move :: "optimizer \<Rightarrow> 'w machine \<Rightarrow> real \<Rightarrow> real \<Rightarrow> 'w \<Rightarrow> bool \<times> 'w" where
  "run_move self m x y w =
     (let w1 = (if task_mode (stat_poll m w) \<noteq> MODE_MDI
                then cmd_wait_complete m (cmd_mode m MODE_MDI w) else w);
          w2 = cmd_mdi m (x, y, test_feed self) w1
      in (True, w2))"

subsection \<open>Sampler and evaluator\<close>

text \<open>Lines 103--116, the sampling loop of \<^verbatim>\<open>collect_during_move\<close>.\<close>

partial_function (option) collect_loop ::
  "'w machine \<Rightarrow> real \<Rightarrow> real \<Rightarrow> real list \<Rightarrow> 'w \<Rightarrow> ((exn + real list) \<times> 'w) option" where
  "collect_loop m start timeout errors w =
     (if time_time m w - start < timeout then
        (let err_x = getp m ''pid.x.error'' w * 1000;
             err_y = getp m ''pid.y.error'' w * 1000;
             vel = \<bar>getp m ''pid.x.output'' w\<bar> + \<bar>getp m ''pid.y.output'' w\<bar>;
             errors' = (if vel > 5 then errors @ [max \<bar>err_x\<bar> \<bar>err_y\<bar>] else errors)
         in if interp_state (stat_poll m w) = INTERP_IDLE \<and> vel < 1 then Some (Inr errors', w)
            else (case time_sleep m 0.002 w of
                    (Some e, w') \<Rightarrow> Some (Inl e, w')
                  | (None, w') \<Rightarrow> collect_loop m start timeout errors' w'))
      else Some (Inr errors, w))"

text \<open>
  Lines 93--119. \<^verbatim>\<open>self.test_feed / 60\<close> is a float division, so the timeout raises
  \<^verbatim>\<open>ZeroDivisionError\<close> when the feed is 0.
\<close>

definition collect_during_move ::
  "optimizer \<Rightarrow> 'w machine \<Rightarrow> real \<Rightarrow> real \<Rightarrow> 'w \<Rightarrow> ((exn + real list) \<times> 'w) option" where
  "collect_during_move self m target_x target_y w =
     (let w1 = snd (run_move self m target_x target_y w) in
      case time_sleep m 0.01 w1 of
        (Some e, w2) \<Rightarrow> Some (Inl e, w2)
      | (None, w2) \<Rightarrow>
          let start = time_time m w2 in
          if test_feed self / 60 = 0 then Some (Inl ZeroDivisionError, w2)
          else
            let timeout = (test_distance self * 1.5 / (test_feed self / 60)) + 0.5 in
            (case collect_loop m start timeout [] w2 of
               None \<Rightarrow> None
             | Some (Inl e, w3) \<Rightarrow> Some (Inl e, w3)
             | Some (Inr errors, w3) \<Rightarrow>
                 (case wait_ready m 10 w3 of
                    None \<Rightarrow> None
                  | Some (Inl e, w4) \<Rightarrow> Some (Inl e, w4)
                  | Some (Inr ready, w4) \<Rightarrow> Some (Inr errors, w4))))"

text \<open>Lines 123--133 of \<^verbatim>\<open>evaluate\<close>: apply, read the origin, run both legs.\<close>

definition evaluate_samples ::
  "optimizer \<Rightarrow> 'w machine \<Rightarrow> params \<Rightarrow> 'w \<Rightarrow> ((exn + real list) \<times> 'w) option" where
  "evaluate_samples self m params_dict w =
     (case apply_params m params_dict w of
        (Inl e, w1) \<Rightarrow> Some (Inl e, w1)
      | (Inr u, w1) \<Rightarrow>
          let (x0, y0) = get_position m w1;
              all_errors = []
          in (case collect_during_move self m (x0 + test_distance self) (y0 + test_distance self) w1 of
                None \<Rightarrow> None
              | Some (Inl e, w2) \<Rightarrow> Some (Inl e, w2)
              | Some (Inr ex, w2) \<Rightarrow>
                  let all_errors = all_errors @ ex in
                  (case collect_during_move self m x0 y0 w2 of
                     None \<Rightarrow> None
                   | Some (Inl e, w3) \<Rightarrow> Some (Inl e, w3)
                   | Some (Inr ex, w3) \<Rightarrow> Some (Inr (all_errors @ ex), w3))))"

text \<open>Lines 121--148.\<close>

definition evaluate ::
  "optimizer \<Rightarrow> 'w machine \<Rightarrow> params \<Rightarrow> 'w \<Rightarrow> ((exn + real) \<times> 'w) option" where
  "evaluate self m params_dict w =
     (case evaluate_samples self m params_dict w of
        None \<Rightarrow> None
      | Some (Inl e, w') \<Rightarrow> Some (Inl e, w')
      | Some (Inr all_errors, w') \<Rightarrow> Some (Inr (evaluate_cost all_errors), w'))"

subsection \<open>Objective adapter and result tracker\<close>

text \<open>
  A process: the optimizer object, the world, what was printed and what
  \<^verbatim>\<open>pid_tuning.hal\<close> holds. Only the prints that carry a result are kept; the file is
  kept as the values its text is formatted from.
\<close>

datatype line =
    Baseline real
  | Progress int "real list" real real
  | Complete params real real
  | SavedTo
  | InvalidChoice
  | Finished
  | Interrupted
  | Error exn

record 'w proc =
  opt :: optimizer
  world :: 'w
  console :: "line list"
  hal_file :: "(params \<times> real) option"

text \<open>
  Lines 153--154: \<^verbatim>\<open>for i, name in enumerate(param_names): params[name] = x[i]\<close>;
  \<^verbatim>\<open>x[i]\<close> raises \<^verbatim>\<open>IndexError\<close> past the end of \<^verbatim>\<open>x\<close>.
\<close>

fun assign_params :: "params \<Rightarrow> real list \<Rightarrow> nat \<Rightarrow> string list \<Rightarrow> exn + params" where
  "assign_params params x i [] = Inr params"
| "assign_params params x i (name # names) =
     (if i < length x then assign_params (params(name \<mapsto> x ! i)) x (Suc i) names
      else Inl IndexError)"

text \<open>Lines 157--161: count the evaluation, keep the best.\<close>

definition record_result :: "params \<Rightarrow> real \<Rightarrow> optimizer \<Rightarrow> optimizer" where
  "record_result params rms self =
     (let self1 = self\<lparr>eval_count := eval_count self + 1\<rparr>
      in if rms < best_rms self1 then self1\<lparr>best_rms := rms, best_params := params\<rparr>
         else self1)"

text \<open>Lines 150--167.\<close>

definition objective ::
  "'w machine \<Rightarrow> real list \<Rightarrow> string list \<Rightarrow> 'w proc \<Rightarrow> ((exn + real) \<times> 'w proc) option" where
  "objective m x param_names s =
     (let params0 = get_current_params m (world s) in
      case assign_params params0 x 0 param_names of
        Inl e \<Rightarrow> Some (Inl e, s)
      | Inr params \<Rightarrow>
          (case evaluate (opt s) m params (world s) of
             None \<Rightarrow> None
           | Some (Inl e, w') \<Rightarrow> Some (Inl e, s\<lparr>world := w'\<rparr>)
           | Some (Inr rms, w') \<Rightarrow>
               let self' = record_result params rms (opt s)
               in Some (Inr rms,
                    s\<lparr>opt := self', world := w',
                      console := console s @ [Progress (eval_count self') x rms (best_rms self')]\<rparr>)))"

subsection \<open>Search strategies\<close>

text \<open>
  \<^verbatim>\<open>scipy.optimize\<close> is a library outside the repository. Its two entry points are taken
  as black boxes: a strategy maps the evaluations made so far (vector, cost) to the next
  vector, or to \<open>None\<close> when it stops, and it makes at most a budget of calls (scipy's
  \<^verbatim>\<open>maxiter\<close>/\<^verbatim>\<open>maxfev\<close>). \<^verbatim>\<open>minimize\<close> receives the start vector only,
  \<^verbatim>\<open>differential_evolution\<close> the bounds.
\<close>

type_synonym strategy = "(real list \<times> real) list \<Rightarrow> real list option"

record scipy =
  minimize_nelder_mead :: "real list \<Rightarrow> strategy"
  nelder_mead_budget :: nat
  differential_evolution :: "(real \<times> real) list \<Rightarrow> strategy"
  de_budget :: nat

text \<open>The library's loop around \<^verbatim>\<open>lambda x: self.objective(x, param_names)\<close>.\<close>

fun search ::
  "'w machine \<Rightarrow> strategy \<Rightarrow> nat \<Rightarrow> string list \<Rightarrow> (real list \<times> real) list \<Rightarrow> 'w proc
     \<Rightarrow> ((exn + unit) \<times> 'w proc) option" where
  "search m strat 0 param_names hist s = Some (Inr (), s)"
| "search m strat (Suc budget) param_names hist s =
     (case strat hist of
        None \<Rightarrow> Some (Inr (), s)
      | Some x \<Rightarrow>
          (case objective m x param_names s of
             None \<Rightarrow> None
           | Some (Inl e, s') \<Rightarrow> Some (Inl e, s')
           | Some (Inr rms, s') \<Rightarrow> search m strat budget param_names (hist @ [(x, rms)]) s'))"

text \<open>\<^verbatim>\<open>[d[name] for name in param_names]\<close>, with \<^verbatim>\<open>KeyError\<close> at the first missing name.\<close>

fun lookup_all :: "(string \<rightharpoonup> 'a) \<Rightarrow> string list \<Rightarrow> exn + 'a list" where
  "lookup_all d [] = Inr []"
| "lookup_all d (name # names) =
     (case d name of
        None \<Rightarrow> Inl (KeyError name)
      | Some v \<Rightarrow> (case lookup_all d names of Inl e \<Rightarrow> Inl e | Inr vs \<Rightarrow> Inr (v # vs)))"

text \<open>Lines 169--188. \<^verbatim>\<open>bounds_list\<close> is computed and not passed on.\<close>

definition optimize_nelder_mead ::
  "scipy \<Rightarrow> 'w machine \<Rightarrow> string list \<Rightarrow> 'w proc \<Rightarrow> ((exn + params \<times> real) \<times> 'w proc) option" where
  "optimize_nelder_mead sp m param_names s =
     (let current = get_current_params m (world s) in
      case lookup_all current param_names of
        Inl e \<Rightarrow> Some (Inl e, s)
      | Inr x0 \<Rightarrow>
          (case lookup_all (bounds (opt s)) param_names of
             Inl e \<Rightarrow> Some (Inl e, s)
           | Inr bounds_list \<Rightarrow>
               let s1 = s\<lparr>opt := (opt s)\<lparr>eval_count := 0, best_rms := 999\<rparr>\<rparr> in
               (case search m (minimize_nelder_mead sp x0) (nelder_mead_budget sp) param_names [] s1 of
                  None \<Rightarrow> None
                | Some (Inl e, s2) \<Rightarrow> Some (Inl e, s2)
                | Some (Inr u, s2) \<Rightarrow> Some (Inr (best_params (opt s2), best_rms (opt s2)), s2))))"

text \<open>Lines 190--210.\<close>

definition optimize_de ::
  "scipy \<Rightarrow> 'w machine \<Rightarrow> string list \<Rightarrow> 'w proc \<Rightarrow> ((exn + params \<times> real) \<times> 'w proc) option" where
  "optimize_de sp m param_names s =
     (case lookup_all (bounds (opt s)) param_names of
        Inl e \<Rightarrow> Some (Inl e, s)
      | Inr bounds_list \<Rightarrow>
          let s1 = s\<lparr>opt := (opt s)\<lparr>eval_count := 0, best_rms := 999\<rparr>\<rparr> in
          (case search m (differential_evolution sp bounds_list) (de_budget sp) param_names [] s1 of
             None \<Rightarrow> None
           | Some (Inl e, s2) \<Rightarrow> Some (Inl e, s2)
           | Some (Inr u, s2) \<Rightarrow> Some (Inr (best_params (opt s2), best_rms (opt s2)), s2)))"

subsection \<open>The run and the program entry\<close>

text \<open>
  Lines 212--239: \<^verbatim>\<open>save_to_hal\<close> formats the five values (\<^verbatim>\<open>KeyError\<close> when one is
  missing) and overwrites the file.
\<close>

definition save_to_hal :: "params \<Rightarrow> real \<Rightarrow> 'w proc \<Rightarrow> (exn + unit) \<times> 'w proc" where
  "save_to_hal params rms s =
     (case lookup_all params [''P'', ''I'', ''D'', ''FF1'', ''FF2''] of
        Inl e \<Rightarrow> (Inl e, s)
      | Inr vs \<Rightarrow> (Inr (), s\<lparr>hal_file := Some (params, rms), console := console s @ [SavedTo]\<rparr>))"

text \<open>
  A call of \<^verbatim>\<open>input\<close> blocks until the operator answers. Its outcome is the text typed,
  or the exception it raises: \<^verbatim>\<open>KeyboardInterrupt\<close> when the operator presses Ctrl-C at the
  prompt.
\<close>

type_synonym answer = "exn + string"

text \<open>
  Lines 289--302: the summary, then the question whether to save; \<open>save\<close> is the outcome
  of the \<^verbatim>\<open>input\<close> of line 298 (stripped and lowered).
\<close>

definition run_report ::
  "answer \<Rightarrow> real \<Rightarrow> params \<times> real \<Rightarrow> 'w proc \<Rightarrow> (exn + unit) \<times> 'w proc" where
  "run_report save baseline_rms result s =
     (let (params, rms) = result;
          s1 = s\<lparr>console := console s @ [Complete params rms baseline_rms]\<rparr>
      in case save of
           Inl e \<Rightarrow> (Inl e, s1)
         | Inr save \<Rightarrow>
             if save \<noteq> ''n'' then
               (case save_to_hal params rms s1 of
                  (Inl e, s2) \<Rightarrow> (Inl e, s2)
                | (Inr u, s2) \<Rightarrow> (Inr (), s2\<lparr>console := console s2 @ [Finished]\<rparr>))
             else (Inr (), s1\<lparr>console := console s1 @ [Finished]\<rparr>))"

text \<open>Lines 270--287: the dispatch on the operator's choice; \<open>None\<close> is an invalid choice.\<close>

definition run_choice ::
  "scipy \<Rightarrow> 'w machine \<Rightarrow> string \<Rightarrow> 'w proc \<Rightarrow> ((exn + (params \<times> real) option) \<times> 'w proc) option" where
  "run_choice sp m choice s =
     (let some = (\<lambda>r. case r of
                    None \<Rightarrow> None
                  | Some (Inl e, s') \<Rightarrow> Some (Inl e, s')
                  | Some (Inr res, s') \<Rightarrow> Some (Inr (Some res), s'))
      in
      if choice = ''1'' then some (optimize_nelder_mead sp m [''P'', ''I'', ''FF1''] s)
      else if choice = ''2'' then some (optimize_de sp m [''P'', ''I'', ''FF1''] s)
      else if choice = ''3'' then
        (case optimize_de sp m [''P'', ''I'', ''FF1''] s of
           None \<Rightarrow> None
         | Some (Inl e, s1) \<Rightarrow> Some (Inl e, s1)
         | Some (Inr (params, rms), s1) \<Rightarrow>
             (case apply_params m params (world s1) of
                (Inl e, w2) \<Rightarrow> Some (Inl e, s1\<lparr>world := w2\<rparr>)
              | (Inr u, w2) \<Rightarrow>
                  some (optimize_nelder_mead sp m [''P'', ''I'', ''D'', ''FF1'', ''FF2'']
                          (s1\<lparr>world := w2\<rparr>))))
      else if choice = ''4'' then some (optimize_nelder_mead sp m [''P'', ''I''] s)
      else if choice = ''5'' then some (optimize_de sp m [''P'', ''I'', ''D'', ''FF1'', ''FF2''] s)
      else Some (Inr None, s\<lparr>console := console s @ [InvalidChoice]\<rparr>))"

text \<open>
  Lines 241--302. The outcomes of the two calls of \<^verbatim>\<open>input\<close> are arguments: \<open>answer\<close>
  for the menu of line 265 (stripped) and \<open>save\<close> for the question of line 298. The second
  is consulted only when the run gets there.
\<close>

definition run ::
  "scipy \<Rightarrow> 'w machine \<Rightarrow> answer \<Rightarrow> answer \<Rightarrow> 'w proc \<Rightarrow> ((exn + unit) \<times> 'w proc) option" where
  "run sp m answer save s =
     (let current = get_current_params m (world s) in
      case evaluate (opt s) m current (world s) of
        None \<Rightarrow> None
      | Some (Inl e, w1) \<Rightarrow> Some (Inl e, s\<lparr>world := w1\<rparr>)
      | Some (Inr baseline_rms, w1) \<Rightarrow>
          let s1 = s\<lparr>world := w1, console := console s @ [Baseline baseline_rms]\<rparr> in
          (case answer of
             Inl e \<Rightarrow> Some (Inl e, s1)
           | Inr choice \<Rightarrow>
               if choice = ''q'' then Some (Inr (), s1)
               else
                 (case run_choice sp m choice s1 of
                    None \<Rightarrow> None
                  | Some (Inl e, s2) \<Rightarrow> Some (Inl e, s2)
                  | Some (Inr None, s2) \<Rightarrow> Some (Inr (), s2)
                  | Some (Inr (Some result), s2) \<Rightarrow>
                      Some (run_report save baseline_rms result s2))))"

text \<open>
  Lines 304--313: the handlers of the program entry. The result is the process as the
  program leaves it.
\<close>

definition main ::
  "scipy \<Rightarrow> 'w machine \<Rightarrow> answer \<Rightarrow> answer \<Rightarrow> 'w \<Rightarrow> (params \<times> real) option \<Rightarrow> 'w proc option" where
  "main sp m answer save w0 file0 =
     (let s0 = \<lparr>opt = init_optimizer, world = w0, console = [], hal_file = file0\<rparr> in
      case run sp m answer save s0 of
        None \<Rightarrow> None
      | Some (Inr u, s) \<Rightarrow> Some s
      | Some (Inl KeyboardInterrupt, s) \<Rightarrow> Some (s\<lparr>console := console s @ [Interrupted]\<rparr>)
      | Some (Inl e, s) \<Rightarrow> Some (s\<lparr>console := console s @ [Error e]\<rparr>))"

subsection \<open>Properties of a machine\<close>

text \<open>The clock never runs slower than \<^verbatim>\<open>time.sleep\<close> asks: sleeping \<open>d\<close> seconds moves
  \<^verbatim>\<open>time.time()\<close> forward by \<open>d\<close> or more.\<close>

definition sleep_advances :: "'w machine \<Rightarrow> bool" where
  "sleep_advances m \<longleftrightarrow> (\<forall>d w. time_time m w + d \<le> time_time m (snd (time_sleep m d w)))"


text \<open>No Ctrl-C arrives.\<close>

definition never_interrupted :: "'w machine \<Rightarrow> bool" where
  "never_interrupted m \<longleftrightarrow> (\<forall>d w. fst (time_sleep m d w) = None)"

text \<open>Every telemetry read fails.\<close>

definition reads_fail :: "'w machine \<Rightarrow> bool" where
  "reads_fail m \<longleftrightarrow> (\<forall>name w. \<exists>e. hal_get_value m name w = Inl e)"

text \<open>The ten gain pins that \<^verbatim>\<open>apply_params\<close> writes.\<close>

definition gain_pins :: "string list" where
  "gain_pins =
     [''pid.x.Pgain'', ''pid.x.Igain'', ''pid.x.Dgain'', ''pid.x.FF1'', ''pid.x.FF2'',
      ''pid.y.Pgain'', ''pid.y.Igain'', ''pid.y.Dgain'', ''pid.y.FF1'', ''pid.y.FF2'']"

text \<open>
  The gain pins behave as memory: a write to one succeeds, is read back, and leaves the
  other gain pins alone; commands and sleeping do not touch them.
\<close>

definition pin_store :: "'w machine \<Rightarrow> bool" where
  "pin_store m \<longleftrightarrow>
     (\<forall>n v w. n \<in> set gain_pins \<longrightarrow>
        (\<exists>w'. hal_set_p m n v w = Inr w' \<and> hal_get_value m n w' = Inr v \<and>
           (\<forall>n'. n' \<in> set gain_pins \<and> n' \<noteq> n \<longrightarrow>
              hal_get_value m n' w' = hal_get_value m n' w))) \<and>
     (\<forall>n w. n \<in> set gain_pins \<longrightarrow>
        (\<forall>d. hal_get_value m n (snd (time_sleep m d w)) = hal_get_value m n w) \<and>
        (\<forall>md. hal_get_value m n (cmd_mode m md w) = hal_get_value m n w) \<and>
        hal_get_value m n (cmd_wait_complete m w) = hal_get_value m n w \<and>
        (\<forall>g. hal_get_value m n (cmd_mdi m g w) = hal_get_value m n w))"

text \<open>
  The contract of the telemetry port in the words of the specification (section 4.1):
  the value, or \<open>None\<close> when the read times out or fails to parse.
\<close>

definition spec_get :: "'w machine \<Rightarrow> string \<Rightarrow> 'w \<Rightarrow> real option" where
  "spec_get m name w = (case hal_get_value m name w of Inr v \<Rightarrow> Some v | Inl e \<Rightarrow> None)"

text \<open>
  What the progress lines of a console show (line 165): the costs that the objective adapter
  recorded, in the order of the calls, and the best cost it printed with each.
\<close>

fun progress_costs :: "line list \<Rightarrow> real list" where
  "progress_costs [] = []"
| "progress_costs (Progress n x rms best # ls) = rms # progress_costs ls"
| "progress_costs (l # ls) = progress_costs ls"

fun progress_bests :: "line list \<Rightarrow> real list" where
  "progress_bests [] = []"
| "progress_bests (Progress n x rms best # ls) = best # progress_bests ls"
| "progress_bests (l # ls) = progress_bests ls"

text \<open>The lines that a process has printed since it was in the state \<open>s\<close>.\<close>

definition printed_since :: "'w proc \<Rightarrow> 'w proc \<Rightarrow> line list" where
  "printed_since s s' = drop (length (console s)) (console s')"

subsection \<open>A scripted machine\<close>

text \<open>
  A test double for the concrete runs below. Its world holds a clock, the pin memory, a
  script of telemetry frames (each sleep moves to the next frame; past the end the machine
  rests, idle) and the number of sleeps left before the operator presses Ctrl-C. The flag
  of the machine says whether the HAL is down.
\<close>

record frame =
  fr_err_x :: real
  fr_err_y :: real
  fr_out_x :: real
  fr_out_y :: real
  fr_idle :: bool

record mock =
  clock :: real
  pins :: "string \<rightharpoonup> real"
  frames :: "frame list"
  ctrl_c :: "nat option"

definition rest_frame :: frame where
  "rest_frame = \<lparr>fr_err_x = 0, fr_err_y = 0, fr_out_x = 0, fr_out_y = 0, fr_idle = True\<rparr>"

text \<open>A frame in motion: following error \<open>e\<close> (mm) on X, command output 6 on X.\<close>

definition moving_frame :: "real \<Rightarrow> frame" where
  "moving_frame e = \<lparr>fr_err_x = e, fr_err_y = 0, fr_out_x = 6, fr_out_y = 0, fr_idle = False\<rparr>"

definition current_frame :: "mock \<Rightarrow> frame" where
  "current_frame w = (case frames w of [] \<Rightarrow> rest_frame | f # fs \<Rightarrow> f)"

definition mock_get_value :: "bool \<Rightarrow> string \<Rightarrow> mock \<Rightarrow> exn + real" where
  "mock_get_value down name w =
     (if down then Inl HalError
      else if name = ''pid.x.error'' then Inr (fr_err_x (current_frame w))
      else if name = ''pid.y.error'' then Inr (fr_err_y (current_frame w))
      else if name = ''pid.x.output'' then Inr (fr_out_x (current_frame w))
      else if name = ''pid.y.output'' then Inr (fr_out_y (current_frame w))
      else (case pins w name of None \<Rightarrow> Inl HalError | Some v \<Rightarrow> Inr v))"

definition mock_set_p :: "bool \<Rightarrow> string \<Rightarrow> real \<Rightarrow> mock \<Rightarrow> exn + mock" where
  "mock_set_p down name v w =
     (if down \<or> name \<in> {''pid.x.error'', ''pid.y.error'', ''pid.x.output'', ''pid.y.output''}
      then Inl HalError
      else Inr (w\<lparr>pins := (pins w)(name \<mapsto> v)\<rparr>))"

definition mock_poll :: "mock \<Rightarrow> stat" where
  "mock_poll w =
     \<lparr>actual_position = (0, 0),
      interp_state = (if fr_idle (current_frame w) then INTERP_IDLE else INTERP_READING),
      task_mode = MODE_MDI\<rparr>"

definition mock_sleep :: "real \<Rightarrow> mock \<Rightarrow> exn option \<times> mock" where
  "mock_sleep d w =
     (let w' = w\<lparr>clock := clock w + d, frames := tl (frames w)\<rparr>
      in case ctrl_c w of
           None \<Rightarrow> (None, w')
         | Some 0 \<Rightarrow> (Some KeyboardInterrupt, w')
         | Some (Suc n) \<Rightarrow> (None, w'\<lparr>ctrl_c := Some n\<rparr>))"

definition mock_machine :: "bool \<Rightarrow> mock machine" where
  "mock_machine down =
     \<lparr>hal_get_value = mock_get_value down,
      hal_set_p = mock_set_p down,
      stat_poll = mock_poll,
      cmd_mode = (\<lambda>md w. w),
      cmd_wait_complete = (\<lambda>w. w),
      cmd_mdi = (\<lambda>g w. w),
      time_time = clock,
      time_sleep = mock_sleep\<rparr>"

text \<open>The same machine with an operator who never presses Ctrl-C.\<close>

definition calm_machine :: "bool \<Rightarrow> mock machine" where
  "calm_machine down = (mock_machine down)\<lparr>time_sleep := (\<lambda>d w. (None, snd (mock_sleep d w)))\<rparr>"

text \<open>The machine at time 0 with no pin written yet, a telemetry script and a Ctrl-C countdown.\<close>

definition mock_world :: "frame list \<Rightarrow> nat option \<Rightarrow> mock" where
  "mock_world fs c = \<lparr>clock = 0, pins = Map.empty, frames = fs, ctrl_c = c\<rparr>"

text \<open>A strategy that proposes the vectors of a list, one after the other.\<close>

definition scripted_strategy :: "real list list \<Rightarrow> strategy" where
  "scripted_strategy xs hist = (if length hist < length xs then Some (xs ! length hist) else None)"

definition scripted_scipy :: "real list list \<Rightarrow> nat \<Rightarrow> scipy" where
  "scripted_scipy xs budget =
     \<lparr>minimize_nelder_mead = (\<lambda>x0. scripted_strategy xs),
      nelder_mead_budget = budget,
      differential_evolution = (\<lambda>bounds_list. scripted_strategy xs),
      de_budget = budget\<rparr>"

definition alternating21 :: "real list" where
  "alternating21 = [5, -5, 5, -5, 5, -5, 5, -5, 5, -5, 5, -5, 5, -5, 5, -5, 5, -5, 5, -5, 5]"

definition hill21 :: "real list" where
  "hill21 = [1, 2, 3, 4, 5, 6, 7, 8, 9, 10, 11, 11, 10, 9, 8, 7, 6, 5, 4, 3, 2]"

text \<open>The pin memory after \<^verbatim>\<open>apply_params\<close> has written a proposal to both axes.\<close>

definition gains_written :: "params \<Rightarrow> (string \<rightharpoonup> real) \<Rightarrow> (string \<rightharpoonup> real)" where
  "gains_written params p =
     p(''pid.x.Pgain'' \<mapsto> the (params ''P''), ''pid.x.Igain'' \<mapsto> the (params ''I''),
       ''pid.x.Dgain'' \<mapsto> the (params ''D''), ''pid.x.FF1'' \<mapsto> the (params ''FF1''),
       ''pid.x.FF2'' \<mapsto> the (params ''FF2''),
       ''pid.y.Pgain'' \<mapsto> the (params ''P''), ''pid.y.Igain'' \<mapsto> the (params ''I''),
       ''pid.y.Dgain'' \<mapsto> the (params ''D''), ''pid.y.FF1'' \<mapsto> the (params ''FF1''),
       ''pid.y.FF2'' \<mapsto> the (params ''FF2''))"

text \<open>A proposal whose proportional gain 500 lies outside the configured bounds (50, 200).\<close>

definition proposal_500 :: params where
  "proposal_500 = [''P'' \<mapsto> 500, ''I'' \<mapsto> 50, ''D'' \<mapsto> 0, ''FF1'' \<mapsto> 1, ''FF2'' \<mapsto> 0]"

definition proposal_100 :: params where
  "proposal_100 = [''P'' \<mapsto> 100, ''I'' \<mapsto> 50, ''D'' \<mapsto> 0, ''FF1'' \<mapsto> 1, ''FF2'' \<mapsto> 0]"




text \<open>Thirty vectors for the gains P, I and FF1.\<close>

definition proposals30 :: "real list list" where
  "proposals30 = [[100, 50, 1], [120, 60, 1], [140, 70, 1]] @ replicate 27 [160, 80, 1]"

text \<open>
  The telemetry of five evaluations with one sample each: 50, 30, 45, 10 and 20
  micrometres.
\<close>

definition script5 :: "frame list" where
  "script5 = [rest_frame, moving_frame 0.05, rest_frame,
              rest_frame, moving_frame 0.03, rest_frame,
              rest_frame, moving_frame 0.045, rest_frame,
              rest_frame, moving_frame 0.01, rest_frame,
              rest_frame, moving_frame 0.02, rest_frame]"

text \<open>The telemetry of three evaluations with one sample each: 60, 10 and 20 micrometres.\<close>

definition script3 :: "frame list" where
  "script3 = [rest_frame, moving_frame 0.06, rest_frame,
              rest_frame, moving_frame 0.01, rest_frame,
              rest_frame, moving_frame 0.02, rest_frame]"

text \<open>
  A library for a short hybrid run: the population search evaluates the one vector
  (120, 60, 1) and the simplex search evaluates its start vector, once each.
\<close>

definition hybrid_scipy :: scipy where
  "hybrid_scipy =
     \<lparr>minimize_nelder_mead = (\<lambda>x0. scripted_strategy [x0]),
      nelder_mead_budget = 1,
      differential_evolution = (\<lambda>bounds_list. scripted_strategy [[120, 60, 1]]),
      de_budget = 1\<rparr>"

section \<open>Properties\<close>

subsection \<open>The cost of a batch\<close>

lemma length_np_diff: "length (np_diff xs) = length xs - 1"
  by (induction xs rule: np_diff.induct) auto

lemma nth_np_diff: "Suc i < length xs \<Longrightarrow> np_diff xs ! i = xs ! Suc i - xs ! i"
proof (induction xs arbitrary: i rule: np_diff.induct)
  case (1 x y zs)
  then show ?case by (cases i) auto
qed auto

lemma adjacent_index_set:
  "{i. Suc i < length (x # y # zs) \<and> (x # y # zs) ! i \<noteq> (x # y # zs) ! Suc i}
     = (if x \<noteq> y then {0} else {}) \<union> Suc ` {i. Suc i < length (y # zs) \<and> (y # zs) ! i \<noteq> (y # zs) ! Suc i}"
  (is "?L = ?R")
proof (rule set_eqI)
  fix i show "i \<in> ?L \<longleftrightarrow> i \<in> ?R"
    by (cases i) (auto simp: image_iff)
qed

lemma count_nonzero_diff_card:
  "np_count_nonzero (np_diff ys) = card {i. Suc i < length ys \<and> ys ! i \<noteq> ys ! Suc i}"
proof (induction ys rule: np_diff.induct)
  case (1 x y zs)
  let ?S = "{i. Suc i < length (y # zs) \<and> (y # zs) ! i \<noteq> (y # zs) ! Suc i}"
  have fin: "finite ?S" by simp
  have c: "card (Suc ` ?S) = card ?S" by (simp add: card_image)
  have d: "card ({0} \<union> Suc ` ?S) = Suc (card ?S)"
    using fin c by (subst card_Un_disjoint) auto
  from 1 have ih: "np_count_nonzero (np_diff (y # zs)) = card ?S" .
  show ?case
    unfolding adjacent_index_set using ih c d
    by (auto simp: np_count_nonzero_def)
qed (auto simp: np_count_nonzero_def)

lemma sign_changes_card:
  "sign_changes (np_diff xs) =
     card {i. i + 2 < length xs \<and> sgn (xs ! (i + 1) - xs ! i) \<noteq> sgn (xs ! (i + 2) - xs ! (i + 1))}"
proof -
  let ?d = "np_diff xs"
  have "sign_changes ?d = card {i. Suc i < length (map sgn ?d) \<and> map sgn ?d ! i \<noteq> map sgn ?d ! Suc i}"
    by (simp add: sign_changes_def np_sign_def count_nonzero_diff_card)
  also have "{i. Suc i < length (map sgn ?d) \<and> map sgn ?d ! i \<noteq> map sgn ?d ! Suc i}
      = {i. i + 2 < length xs \<and> sgn (xs ! (i + 1) - xs ! i) \<noteq> sgn (xs ! (i + 2) - xs ! (i + 1))}"
    by (auto simp: length_np_diff nth_np_diff)
  finally show ?thesis .
qed

lemma sqrt25: "sqrt 25 = 5"
  using real_sqrt_abs [of 5] by simp

lemma rms_alt: "rms_of alternating21 = 5"
  by (simp add: rms_of_def np_mean_def alternating21_def sqrt25)

lemma sc_alt: "sign_changes (np_diff alternating21) = 19"
  by (simp add: sign_changes_def np_sign_def np_count_nonzero_def alternating21_def)

lemma cost_alt: "evaluate_cost alternating21 = 10"
  using rms_alt sc_alt by (simp add: evaluate_cost_def Let_def length_np_diff) (simp add: alternating21_def)

lemma sc_hill: "sign_changes (np_diff hill21) = 2"
  by (simp add: sign_changes_def np_sign_def np_count_nonzero_def hill21_def)

lemma cost_hill: "evaluate_cost hill21 = rms_of hill21"
  using sc_hill by (simp add: evaluate_cost_def Let_def length_np_diff) (simp add: hill21_def)

lemma np_diff_scale: "np_diff (map ((*) c) xs) = map ((*) c) (np_diff xs)"
  by (induction xs rule: np_diff.induct) (simp_all add: right_diff_distrib)

lemma np_sign_scale: "0 < c \<Longrightarrow> np_sign (map ((*) c) d) = np_sign d"
  by (simp add: np_sign_def sgn_mult)

lemma sign_changes_scale:
  "0 < c \<Longrightarrow> sign_changes (np_diff (map ((*) c) xs)) = sign_changes (np_diff xs)"
  by (simp add: sign_changes_def np_diff_scale np_sign_scale)

lemma sum_list_scale_sq: "(\<Sum>e\<leftarrow>xs. (c * e) ^ 2) = c ^ 2 * (\<Sum>e\<leftarrow>xs. e ^ 2 :: real)"
  by (induction xs) (simp_all add: power_mult_distrib distrib_left)

lemma sum_list_sq_nonneg: "0 \<le> (\<Sum>e\<leftarrow>xs. e ^ 2 :: real)"
  by (induction xs) simp_all

lemma rms_of_scale:
  assumes "0 \<le> c"
  shows "rms_of (map ((*) c) xs) = c * rms_of xs"
proof -
  have "(\<Sum>e\<leftarrow>xs. (c * e) ^ 2) / real (length xs) = c ^ 2 * ((\<Sum>e\<leftarrow>xs. e ^ 2) / real (length xs))"
    by (simp add: sum_list_scale_sq)
  then have "sqrt ((\<Sum>e\<leftarrow>xs. (c * e) ^ 2) / real (length xs))
      = sqrt (c ^ 2 * ((\<Sum>e\<leftarrow>xs. e ^ 2) / real (length xs)))"
    by (rule arg_cong)
  also have "\<dots> = \<bar>c\<bar> * sqrt ((\<Sum>e\<leftarrow>xs. e ^ 2) / real (length xs))"
    by (simp only: real_sqrt_mult real_sqrt_abs)
  finally have "sqrt ((\<Sum>e\<leftarrow>xs. (c * e) ^ 2) / real (length xs))
      = \<bar>c\<bar> * sqrt ((\<Sum>e\<leftarrow>xs. e ^ 2) / real (length xs))" .
  with assms show ?thesis
    by (simp add: rms_of_def np_mean_def comp_def)
qed

lemma rms_of_nonneg: "0 \<le> rms_of xs"
  using sum_list_sq_nonneg[of xs] by (simp add: rms_of_def np_mean_def)

lemma evaluate_cost_nonneg: "0 \<le> evaluate_cost xs"
  using rms_of_nonneg[of xs] by (simp add: evaluate_cost_def Let_def)

lemma evaluate_cost_scale:
  "xs \<noteq> [] \<Longrightarrow> 0 < c \<Longrightarrow> evaluate_cost (map ((*) c) xs) = c * evaluate_cost xs"
  by (simp add: evaluate_cost_def Let_def rms_of_scale sign_changes_scale length_np_diff)

lemma sum_list_sq_zero: "(\<Sum>e\<leftarrow>xs. e ^ 2 :: real) = 0 \<Longrightarrow> \<forall>e\<in>set xs. e = 0"
proof (induction xs)
  case Nil
  then show ?case by simp
next
  case (Cons a xs)
  have a: "0 \<le> a ^ 2" by simp
  have b: "0 \<le> (\<Sum>e\<leftarrow>xs. e ^ 2)" by (rule sum_list_sq_nonneg)
  from Cons.prems have "a ^ 2 + (\<Sum>e\<leftarrow>xs. e ^ 2) = 0" by simp
  with a b have "a ^ 2 = 0" "(\<Sum>e\<leftarrow>xs. e ^ 2) = 0" by linarith+
  with Cons.IH show ?case by simp
qed

lemma rms_of_zero: "xs \<noteq> [] \<Longrightarrow> rms_of xs = 0 \<Longrightarrow> \<forall>e\<in>set xs. e = 0"
  by (rule sum_list_sq_zero) (simp add: rms_of_def np_mean_def)

lemma evaluate_cost_cases: "xs \<noteq> [] \<Longrightarrow> evaluate_cost xs = rms_of xs \<or> evaluate_cost xs = 2 * rms_of xs"
  by (simp add: evaluate_cost_def Let_def)

lemma evaluate_cost_single: "evaluate_cost [e] = \<bar>e\<bar>"
  by (simp add: evaluate_cost_def rms_of_def np_mean_def)

text \<open>
  Claim C3. For a non-empty batch the cost is the root mean square of the samples, doubled
  once exactly when the batch has more than 20 samples and the number of places where two
  consecutive first differences differ in sign exceeds 40 percent of the number of first
  differences. The sign is that of \<^verbatim>\<open>np.sign\<close>, so a difference of 0 differs from a
  positive and from a negative one. A batch of 21 samples whose differences change sign at
  most twice costs its raw root mean square; the alternating batch of 21 samples
  5, -5, ..., 5 has root mean square 5 and costs 10.
\<close>

theorem evaluate_cost_is_rms_penalised_once:
  "(all_errors \<noteq> [] \<longrightarrow>
      evaluate_cost all_errors =
        (if 20 < length all_errors \<and>
            0.4 * real (length all_errors - 1)
              < real (card {i. i + 2 < length all_errors \<and>
                    sgn (all_errors ! (i + 1) - all_errors ! i)
                      \<noteq> sgn (all_errors ! (i + 2) - all_errors ! (i + 1))})
         then 2 * sqrt ((\<Sum>e\<leftarrow>all_errors. e ^ 2) / real (length all_errors))
         else sqrt ((\<Sum>e\<leftarrow>all_errors. e ^ 2) / real (length all_errors))))
   \<and> (length all_errors = 21 \<and> sign_changes (np_diff all_errors) \<le> 2
        \<longrightarrow> evaluate_cost all_errors = rms_of all_errors)
   \<and> length alternating21 = 21 \<and> rms_of alternating21 = 5 \<and> evaluate_cost alternating21 = 10
   \<and> length hill21 = 21 \<and> sign_changes (np_diff hill21) = 2
   \<and> evaluate_cost hill21 = rms_of hill21"
proof (intro conjI impI)
  assume "all_errors \<noteq> []"
  then show "evaluate_cost all_errors =
        (if 20 < length all_errors \<and>
            0.4 * real (length all_errors - 1)
              < real (card {i. i + 2 < length all_errors \<and>
                    sgn (all_errors ! (i + 1) - all_errors ! i)
                      \<noteq> sgn (all_errors ! (i + 2) - all_errors ! (i + 1))})
         then 2 * sqrt ((\<Sum>e\<leftarrow>all_errors. e ^ 2) / real (length all_errors))
         else sqrt ((\<Sum>e\<leftarrow>all_errors. e ^ 2) / real (length all_errors)))"
    unfolding sign_changes_card[symmetric]
    by (simp add: evaluate_cost_def Let_def length_np_diff rms_of_def np_mean_def mult.commute)
next
  assume "length all_errors = 21 \<and> sign_changes (np_diff all_errors) \<le> 2"
  then show "evaluate_cost all_errors = rms_of all_errors"
    by (auto simp: evaluate_cost_def Let_def length_np_diff)
qed (simp_all add: rms_alt cost_alt sc_hill cost_hill, simp_all add: alternating21_def hill21_def)

text \<open>
  Claim C3, at concrete batches: a two-sample batch, and the 21 samples that rise to 11,
  stay there once and fall again (two sign changes).
\<close>

theorem evaluate_cost_is_rms_penalised_once_witness:
  "[3, 4 :: real] \<noteq> [] \<and> evaluate_cost [3, 4] = sqrt (25 / 2)
   \<and> length hill21 = 21 \<and> sign_changes (np_diff hill21) \<le> 2 \<and> evaluate_cost hill21 = rms_of hill21"
  using evaluate_cost_is_rms_penalised_once[of "[3, 4]"] evaluate_cost_is_rms_penalised_once[of hill21]
  by simp

text \<open>
  Claim C7. For a non-empty batch, doubling every sample doubles the root mean square,
  leaves the penalty decision as it was, and so doubles the cost; between two batches with
  the same penalty decision the cost is monotone in the root mean square.
\<close>

theorem evaluate_cost_doubles_with_samples:
  assumes "all_errors \<noteq> []"
  shows "rms_of (map ((*) 2) all_errors) = 2 * rms_of all_errors
    \<and> (20 < length (map ((*) 2) all_errors) \<and>
         real (sign_changes (np_diff (map ((*) 2) all_errors)))
           > real (length (np_diff (map ((*) 2) all_errors))) * 0.4)
        = (20 < length all_errors \<and>
           real (sign_changes (np_diff all_errors)) > real (length (np_diff all_errors)) * 0.4)
    \<and> evaluate_cost (map ((*) 2) all_errors) = 2 * evaluate_cost all_errors
    \<and> evaluate_cost all_errors \<le> evaluate_cost (map ((*) 2) all_errors)
    \<and> (\<forall>other. other \<noteq> [] \<and>
          (20 < length other \<and> real (sign_changes (np_diff other)) > real (length (np_diff other)) * 0.4)
            = (20 < length all_errors \<and>
               real (sign_changes (np_diff all_errors)) > real (length (np_diff all_errors)) * 0.4) \<and>
          rms_of all_errors \<le> rms_of other
          \<longrightarrow> evaluate_cost all_errors \<le> evaluate_cost other)"
proof (intro conjI)
  show "rms_of (map ((*) 2) all_errors) = 2 * rms_of all_errors"
    by (rule rms_of_scale) simp
  show "(20 < length (map ((*) 2) all_errors) \<and>
         real (sign_changes (np_diff (map ((*) 2) all_errors)))
           > real (length (np_diff (map ((*) 2) all_errors))) * 0.4)
        = (20 < length all_errors \<and>
           real (sign_changes (np_diff all_errors)) > real (length (np_diff all_errors)) * 0.4)"
    by (simp add: sign_changes_scale length_np_diff)
  show c2: "evaluate_cost (map ((*) 2) all_errors) = 2 * evaluate_cost all_errors"
    using assms by (rule evaluate_cost_scale) simp
  show "evaluate_cost all_errors \<le> evaluate_cost (map ((*) 2) all_errors)"
    unfolding c2 using evaluate_cost_nonneg[of all_errors] by simp
  show "\<forall>other. other \<noteq> [] \<and>
          (20 < length other \<and> real (sign_changes (np_diff other)) > real (length (np_diff other)) * 0.4)
            = (20 < length all_errors \<and>
               real (sign_changes (np_diff all_errors)) > real (length (np_diff all_errors)) * 0.4) \<and>
          rms_of all_errors \<le> rms_of other
          \<longrightarrow> evaluate_cost all_errors \<le> evaluate_cost other"
    using assms by (auto simp: evaluate_cost_def Let_def)
qed

text \<open>
  Claim C7, at the batch 3, 4 and its double 6, 8.
\<close>

theorem evaluate_cost_doubles_with_samples_witness:
  "[3, 4 :: real] \<noteq> [] \<and> evaluate_cost [6, 8] = 2 * evaluate_cost [3, 4]"
  using evaluate_cost_doubles_with_samples[of "[3, 4]"] by simp

subsection \<open>The telemetry port\<close>

text \<open>
  Claim C5 as stated: \<^verbatim>\<open>getp\<close> returns the contract's \<open>None\<close> on a failed read. With
  the HAL down the contract gives \<open>None\<close>, and \<^verbatim>\<open>getp\<close> gives the number 0.
\<close>

theorem getp_failed_read_is_not_none:
  "spec_get (mock_machine True) ''pid.x.error'' (mock_world [] None) = None
   \<and> getp (mock_machine True) ''pid.x.error'' (mock_world [] None) = 0
   \<and> Some (getp (mock_machine True) ''pid.x.error'' (mock_world [] None))
       \<noteq> spec_get (mock_machine True) ''pid.x.error'' (mock_world [] None)"
  by (simp add: spec_get_def getp_def mock_machine_def mock_get_value_def)

text \<open>
  Claim C5, amended. \<^verbatim>\<open>getp\<close> is total: for every machine, signal and world it returns a
  number and raises nothing; it returns the value read when the read succeeds and 0 when
  the read fails.
\<close>

theorem getp_returns_value_or_zero:
  "getp m name w = (case spec_get m name w of Some v \<Rightarrow> v | None \<Rightarrow> 0)
   \<and> getp m name w = (case hal_get_value m name w of Inr v \<Rightarrow> v | Inl e \<Rightarrow> 0)"
  by (simp add: getp_def spec_get_def split: sum.splits)

subsection \<open>The polling loops under a clock that advances\<close>

lemma sleep_advancesD:
  "sleep_advances m \<Longrightarrow> time_sleep m d w = (x, w') \<Longrightarrow> time_time m w + d \<le> time_time m w'"
  unfolding sleep_advances_def by (metis snd_conv)

lemma ticks_decrease:
  fixes a b dl :: real
  assumes "0 < dl" "0 < a" "b \<le> a - dl"
  shows "nat \<lceil>b / dl\<rceil> < nat \<lceil>a / dl\<rceil>"
proof -
  have "b / dl \<le> a / dl - 1" using assms by (simp add: field_simps)
  then have "\<lceil>b / dl\<rceil> \<le> \<lceil>a / dl\<rceil> - 1"
    by (metis ceiling_diff_one ceiling_mono)
  moreover have "0 < \<lceil>a / dl\<rceil>" using assms by simp
  ultimately show ?thesis by linarith
qed










subsection \<open>Failing reads\<close>

lemma getp_reads_fail: "reads_fail m \<Longrightarrow> getp m name w = 0"
  unfolding reads_fail_def getp_def by (metis old.sum.simps(5))

lemma never_interruptedD: "never_interrupted m \<Longrightarrow> time_sleep m d w = (x, w') \<Longrightarrow> x = None"
  unfolding never_interrupted_def by (metis fst_conv)

lemma collect_loop_reads_fail:
  assumes adv: "sleep_advances m" and ni: "never_interrupted m" and rf: "reads_fail m"
  shows "\<exists>w'. collect_loop m start timeout errors w = Some (Inr errors, w')"
proof (induction "nat \<lceil>(start + timeout - time_time m w) / 0.002\<rceil>" arbitrary: w rule: less_induct)
  case less
  show ?case
  proof (cases "time_time m w - start < timeout")
    case False
    then show ?thesis by (subst collect_loop.simps) simp
  next
    case guard: True
    obtain x w1 where sl: "time_sleep m 0.002 w = (x, w1)" by (cases "time_sleep m 0.002 w")
    have x: "x = None" using never_interruptedD[OF ni sl] .
    have "time_time m w + 0.002 \<le> time_time m w1" using sleep_advancesD[OF adv sl] by simp
    then have "nat \<lceil>(start + timeout - time_time m w1) / 0.002\<rceil> < nat \<lceil>(start + timeout - time_time m w) / 0.002\<rceil>"
      using guard by (intro ticks_decrease) auto
    from less[OF this] have ih: "\<exists>w'. collect_loop m start timeout errors w1 = Some (Inr errors, w')" .
    show ?thesis
      apply (subst collect_loop.simps)
      using guard sl ih x by (auto simp: Let_def getp_reads_fail[OF rf])
  qed
qed

lemma wait_ready_loop_returns:
  assumes adv: "sleep_advances m" and ni: "never_interrupted m"
  shows "\<exists>b w'. wait_ready_loop m start timeout w = Some (Inr b, w')"
proof (induction "nat \<lceil>(start + timeout - time_time m w) / 0.05\<rceil>" arbitrary: w rule: less_induct)
  case less
  show ?case
  proof (cases "time_time m w - start < timeout")
    case False
    then show ?thesis by (subst wait_ready_loop.simps) auto
  next
    case guard: True
    obtain x w1 where sl: "time_sleep m 0.05 w = (x, w1)" by (cases "time_sleep m 0.05 w")
    have x: "x = None" using never_interruptedD[OF ni sl] .
    have "time_time m w + 0.05 \<le> time_time m w1" using sleep_advancesD[OF adv sl] by simp
    then have "nat \<lceil>(start + timeout - time_time m w1) / 0.05\<rceil> < nat \<lceil>(start + timeout - time_time m w) / 0.05\<rceil>"
      using guard by (intro ticks_decrease) auto
    from less[OF this] have ih: "\<exists>b w'. wait_ready_loop m start timeout w1 = Some (Inr b, w')" .
    show ?thesis
      apply (subst wait_ready_loop.simps)
      using guard sl ih x by auto
  qed
qed

lemma collect_during_move_reads_fail:
  assumes adv: "sleep_advances m" and ni: "never_interrupted m" and rf: "reads_fail m"
    and feed: "test_feed self \<noteq> 0"
  shows "\<exists>w'. collect_during_move self m x y w = Some (Inr [], w')"
proof -
  let ?w1 = "snd (run_move self m x y w)"
  obtain e w2 where s2: "time_sleep m 0.01 ?w1 = (e, w2)" by (cases "time_sleep m 0.01 ?w1")
  have e: "e = None" using never_interruptedD[OF ni s2] .
  let ?t = "test_distance self * 1.5 / (test_feed self / 60) + 0.5"
  from collect_loop_reads_fail[OF adv ni rf] obtain w3 where
    c3: "collect_loop m (time_time m w2) ?t [] w2 = Some (Inr [], w3)" by blast
  from wait_ready_loop_returns[OF adv ni] obtain b w4 where
    c4: "wait_ready m 10 w3 = Some (Inr b, w4)" unfolding wait_ready_def by blast
  show ?thesis
    using s2 e c3 c4 feed by (simp add: collect_during_move_def Let_def)
qed

lemma apply_params_returns:
  assumes keys: "params ''P'' = Some p" "params ''I'' = Some i" "params ''D'' = Some d"
      "params ''FF1'' = Some f1" "params ''FF2'' = Some f2"
  shows "\<exists>w1. apply_params m params w = (Inr (), w1)"
  using keys by (simp add: apply_params_def apply_params_axis_def Let_def)

lemma evaluate_samples_reads_fail:
  assumes adv: "sleep_advances m" and ni: "never_interrupted m" and rf: "reads_fail m"
    and feed: "test_feed self \<noteq> 0"
    and keys: "params ''P'' = Some p" "params ''I'' = Some i" "params ''D'' = Some d"
      "params ''FF1'' = Some f1" "params ''FF2'' = Some f2"
  shows "\<exists>w'. evaluate_samples self m params w = Some (Inr [], w')"
proof -
  from apply_params_returns[OF keys, of m w] obtain w1 where ap: "apply_params m params w = (Inr (), w1)" by blast
  obtain x0 y0 where pos: "get_position m w1 = (x0, y0)" by (cases "get_position m w1")
  from collect_during_move_reads_fail[OF adv ni rf feed] obtain w2 where
    l1: "collect_during_move self m (x0 + test_distance self) (y0 + test_distance self) w1 = Some (Inr [], w2)" by blast
  from collect_during_move_reads_fail[OF adv ni rf feed] obtain w3 where
    l2: "collect_during_move self m x0 y0 w2 = Some (Inr [], w3)" by blast
  show ?thesis using ap pos l1 l2 by (simp add: evaluate_samples_def)
qed

subsection \<open>What an evaluation leaves on the machine\<close>

lemma collect_loop_world_aux:
  assumes run: "collect_loop m start timeout errors w = Some y"
  shows "(\<forall>u d. Q u \<longrightarrow> Q (snd (time_sleep m d u))) \<longrightarrow> Q w \<longrightarrow> Q (snd y)"
proof (rule collect_loop.raw_induct[where P = "\<lambda>m start timeout errors w y.
     (\<forall>u d. Q u \<longrightarrow> Q (snd (time_sleep m d u))) \<longrightarrow> Q w \<longrightarrow> Q (snd y)", OF _ run], goal_cases)
  case (1 f m start timeout errors w y)
  show ?case
  proof (intro impI)
    assume step: "\<forall>u d. Q u \<longrightarrow> Q (snd (time_sleep m d u))" and q: "Q w"
    show "Q (snd y)"
    proof (cases "time_time m w - start < timeout")
      case False
      with 1(2) q show ?thesis by auto
    next
      case True
      obtain x w1 where sl: "time_sleep m (1/500) w = (x, w1)" by (cases "time_sleep m (1/500) w")
      have q1: "Q w1" using step q sl by (metis snd_conv)
      show ?thesis
        using 1(2) True sl q q1 1(1) step
        by (cases x) (auto simp: Let_def split: if_splits)
    qed
  qed
qed

lemma collect_loop_world:
  "collect_loop m start timeout errors w = Some (r, w') \<Longrightarrow> Q w \<Longrightarrow>
   (\<And>u d. Q u \<Longrightarrow> Q (snd (time_sleep m d u))) \<Longrightarrow> Q w'"
  using collect_loop_world_aux[of m start timeout errors w "(r, w')" Q] by auto

lemma wait_ready_loop_world_aux:
  assumes run: "wait_ready_loop m start timeout w = Some y"
  shows "(\<forall>u d. Q u \<longrightarrow> Q (snd (time_sleep m d u))) \<longrightarrow> Q w \<longrightarrow> Q (snd y)"
proof (rule wait_ready_loop.raw_induct[where P = "\<lambda>m start timeout w y.
     (\<forall>u d. Q u \<longrightarrow> Q (snd (time_sleep m d u))) \<longrightarrow> Q w \<longrightarrow> Q (snd y)", OF _ run], goal_cases)
  case (1 f m start timeout w y)
  show ?case
  proof (intro impI)
    assume step: "\<forall>u d. Q u \<longrightarrow> Q (snd (time_sleep m d u))" and q: "Q w"
    show "Q (snd y)"
    proof (cases "time_time m w - start < timeout")
      case False
      with 1(2) q show ?thesis by auto
    next
      case True
      obtain x w1 where sl: "time_sleep m (1/20) w = (x, w1)" by (cases "time_sleep m (1/20) w")
      have q1: "Q w1" using step q sl by (metis snd_conv)
      show ?thesis
        using 1(2) True sl q q1 1(1) step
        by (cases x) (auto simp: Let_def split: if_splits)
    qed
  qed
qed

lemma wait_ready_world:
  "wait_ready m timeout w = Some (r, w') \<Longrightarrow> Q w \<Longrightarrow>
   (\<And>u d. Q u \<Longrightarrow> Q (snd (time_sleep m d u))) \<Longrightarrow> Q w'"
  using wait_ready_loop_world_aux[of m "time_time m w" timeout w "(r, w')" Q] by (auto simp: wait_ready_def)

lemma setp_store_same:
  "pin_store m \<Longrightarrow> n \<in> set gain_pins \<Longrightarrow> hal_get_value m n (snd (setp m n v w)) = Inr v"
proof -
  assume ps: "pin_store m" and n: "n \<in> set gain_pins"
  from ps n obtain w' where "hal_set_p m n v w = Inr w'" "hal_get_value m n w' = Inr v"
    unfolding pin_store_def by blast
  then show ?thesis by (simp add: setp_def)
qed

lemma setp_store_other:
  "pin_store m \<Longrightarrow> n \<in> set gain_pins \<Longrightarrow> n' \<in> set gain_pins \<Longrightarrow> n' \<noteq> n \<Longrightarrow>
   hal_get_value m n' (snd (setp m n v w)) = hal_get_value m n' w"
proof -
  assume ps: "pin_store m" and n: "n \<in> set gain_pins" "n' \<in> set gain_pins" "n' \<noteq> n"
  from ps n(1) obtain w' where "hal_set_p m n v w = Inr w'"
    "\<forall>n'. n' \<in> set gain_pins \<and> n' \<noteq> n \<longrightarrow> hal_get_value m n' w' = hal_get_value m n' w"
    unfolding pin_store_def by blast
  with n show ?thesis by (simp add: setp_def)
qed

lemma apply_params_store:
  assumes ps: "pin_store m"
    and keys: "params ''P'' = Some p" "params ''I'' = Some i" "params ''D'' = Some d"
      "params ''FF1'' = Some f1" "params ''FF2'' = Some f2"
  shows "\<exists>w1. apply_params m params w = (Inr (), w1) \<and>
     hal_get_value m ''pid.x.Pgain'' w1 = Inr p \<and> hal_get_value m ''pid.y.Pgain'' w1 = Inr p \<and>
     hal_get_value m ''pid.x.Igain'' w1 = Inr i \<and> hal_get_value m ''pid.y.Igain'' w1 = Inr i \<and>
     hal_get_value m ''pid.x.Dgain'' w1 = Inr d \<and> hal_get_value m ''pid.y.Dgain'' w1 = Inr d \<and>
     hal_get_value m ''pid.x.FF1'' w1 = Inr f1 \<and> hal_get_value m ''pid.y.FF1'' w1 = Inr f1 \<and>
     hal_get_value m ''pid.x.FF2'' w1 = Inr f2 \<and> hal_get_value m ''pid.y.FF2'' w1 = Inr f2"
  using keys
  by (simp add: apply_params_def apply_params_axis_def Let_def setp_store_same[OF ps] setp_store_other[OF ps] gain_pins_def)

lemma run_move_world:
  assumes "Q w"
    and "\<And>u md. Q u \<Longrightarrow> Q (cmd_mode m md u)"
    and "\<And>u. Q u \<Longrightarrow> Q (cmd_wait_complete m u)"
    and "\<And>u g. Q u \<Longrightarrow> Q (cmd_mdi m g u)"
  shows "Q (snd (run_move self m x y w))"
  using assms by (simp add: run_move_def Let_def)

lemma collect_during_move_world:
  assumes run: "collect_during_move self m x y w = Some (r, w')"
    and q: "Q w"
    and sl: "\<And>u d. Q u \<Longrightarrow> Q (snd (time_sleep m d u))"
    and cm: "\<And>u md. Q u \<Longrightarrow> Q (cmd_mode m md u)"
    and cw: "\<And>u. Q u \<Longrightarrow> Q (cmd_wait_complete m u)"
    and cd: "\<And>u g. Q u \<Longrightarrow> Q (cmd_mdi m g u)"
  shows "Q w'"
proof -
  let ?w1 = "snd (run_move self m x y w)"
  have q1: "Q ?w1" using run_move_world[of Q, OF q cm cw cd] by simp
  obtain e w2 where s2: "time_sleep m 0.01 ?w1 = (e, w2)" by (cases "time_sleep m 0.01 ?w1")
  have q2: "Q w2" using sl[OF q1, of "0.01"] s2 by simp
  show ?thesis
  proof (cases e)
    case (Some a)
    with run s2 q2 show ?thesis by (simp add: collect_during_move_def Let_def)
  next
    case None
    show ?thesis
    proof (cases "test_feed self / 60 = 0")
      case True
      with run s2 q2 None show ?thesis by (simp add: collect_during_move_def Let_def)
    next
      case False
      let ?cl = "collect_loop m (time_time m w2) (test_distance self * 1.5 / (test_feed self / 60) + 0.5) [] w2"
      from run s2 None False obtain r3 w3 where c3: "?cl = Some (r3, w3)"
        by (cases ?cl) (auto simp: collect_during_move_def Let_def)
      have q3: "Q w3" using collect_loop_world[OF c3 q2 sl] .
      show ?thesis
      proof (cases r3)
        case (Inl a)
        with run s2 None False c3 q3 show ?thesis by (simp add: collect_during_move_def Let_def)
      next
        case (Inr errs)
        from run s2 None False c3 Inr obtain r4 w4 where c4: "wait_ready m 10 w3 = Some (r4, w4)"
          by (cases "wait_ready m 10 w3") (auto simp: collect_during_move_def Let_def)
        have q4: "Q w4" using wait_ready_world[OF c4 q3 sl] .
        from run s2 None False c3 Inr c4 q4 show ?thesis
          by (cases r4) (auto simp: collect_during_move_def Let_def)
      qed
    qed
  qed
qed

lemma evaluate_samples_world:
  assumes run: "evaluate_samples self m params w = Some (r, w')"
    and q: "Q (snd (apply_params m params w))"
    and sl: "\<And>u d. Q u \<Longrightarrow> Q (snd (time_sleep m d u))"
    and cm: "\<And>u md. Q u \<Longrightarrow> Q (cmd_mode m md u)"
    and cw: "\<And>u. Q u \<Longrightarrow> Q (cmd_wait_complete m u)"
    and cd: "\<And>u g. Q u \<Longrightarrow> Q (cmd_mdi m g u)"
  shows "Q w'"
proof -
  obtain a w1 where ap: "apply_params m params w = (a, w1)" by (cases "apply_params m params w")
  with q have q1: "Q w1" by simp
  show ?thesis
  proof (cases a)
    case (Inl e)
    with run ap q1 show ?thesis by (simp add: evaluate_samples_def)
  next
    case (Inr u)
    obtain x0 y0 where pos: "get_position m w1 = (x0, y0)" by (cases "get_position m w1")
    let ?l1 = "collect_during_move self m (x0 + test_distance self) (y0 + test_distance self) w1"
    from run ap Inr pos obtain r2 w2 where l1: "?l1 = Some (r2, w2)"
      by (cases ?l1) (auto simp: evaluate_samples_def)
    have q2: "Q w2" using collect_during_move_world[of self m _ _ w1 r2 w2 Q, OF l1 q1 sl cm cw cd] by simp
    show ?thesis
    proof (cases r2)
      case (Inl e)
      with run ap Inr pos l1 q2 show ?thesis by (simp add: evaluate_samples_def)
    next
      case ex: (Inr ex)
      let ?l2 = "collect_during_move self m x0 y0 w2"
      from run ap Inr pos l1 ex obtain r3 w3 where l2: "?l2 = Some (r3, w3)"
        by (cases ?l2) (auto simp: evaluate_samples_def)
      have q3: "Q w3" using collect_during_move_world[of self m _ _ w2 r3 w3 Q, OF l2 q2 sl cm cw cd] by simp
      from run ap Inr pos l1 ex l2 q3 show ?thesis
        by (cases r3) (auto simp: evaluate_samples_def)
    qed
  qed
qed

lemma evaluate_world:
  assumes run: "evaluate self m params w = Some (r, w')"
    and q: "Q (snd (apply_params m params w))"
    and sl: "\<And>u d. Q u \<Longrightarrow> Q (snd (time_sleep m d u))"
    and cm: "\<And>u md. Q u \<Longrightarrow> Q (cmd_mode m md u)"
    and cw: "\<And>u. Q u \<Longrightarrow> Q (cmd_wait_complete m u)"
    and cd: "\<And>u g. Q u \<Longrightarrow> Q (cmd_mdi m g u)"
  shows "Q w'"
proof -
  from run obtain r0 where "evaluate_samples self m params w = Some (r0, w')"
    by (auto simp: evaluate_def split: option.splits sum.splits prod.splits)
  from evaluate_samples_world[of self m params w r0 w' Q, OF this q sl cm cw cd] show ?thesis .
qed

lemma evaluate_applies:
  assumes ps: "pin_store m"
    and keys: "params ''P'' = Some p" "params ''I'' = Some i" "params ''D'' = Some d"
      "params ''FF1'' = Some f1" "params ''FF2'' = Some f2"
    and run: "evaluate self m params w = Some (r, w')"
  shows "hal_get_value m ''pid.x.Pgain'' w' = Inr p \<and> hal_get_value m ''pid.y.Pgain'' w' = Inr p \<and>
     hal_get_value m ''pid.x.Igain'' w' = Inr i \<and> hal_get_value m ''pid.y.Igain'' w' = Inr i \<and>
     hal_get_value m ''pid.x.Dgain'' w' = Inr d \<and> hal_get_value m ''pid.y.Dgain'' w' = Inr d \<and>
     hal_get_value m ''pid.x.FF1'' w' = Inr f1 \<and> hal_get_value m ''pid.y.FF1'' w' = Inr f1 \<and>
     hal_get_value m ''pid.x.FF2'' w' = Inr f2 \<and> hal_get_value m ''pid.y.FF2'' w' = Inr f2"
proof -
  from apply_params_store[OF ps keys, of w] obtain w1 where
    ap: "apply_params m params w = (Inr (), w1)" and
    vals: "hal_get_value m ''pid.x.Pgain'' w1 = Inr p \<and> hal_get_value m ''pid.y.Pgain'' w1 = Inr p \<and>
     hal_get_value m ''pid.x.Igain'' w1 = Inr i \<and> hal_get_value m ''pid.y.Igain'' w1 = Inr i \<and>
     hal_get_value m ''pid.x.Dgain'' w1 = Inr d \<and> hal_get_value m ''pid.y.Dgain'' w1 = Inr d \<and>
     hal_get_value m ''pid.x.FF1'' w1 = Inr f1 \<and> hal_get_value m ''pid.y.FF1'' w1 = Inr f1 \<and>
     hal_get_value m ''pid.x.FF2'' w1 = Inr f2 \<and> hal_get_value m ''pid.y.FF2'' w1 = Inr f2"
    by blast
  let ?Q = "\<lambda>u. \<forall>n\<in>set gain_pins. hal_get_value m n u = hal_get_value m n w1"
  have "?Q w'"
  proof (rule evaluate_world[of self m params w r w' ?Q, OF run])
    show "?Q (snd (apply_params m params w))" using ap by simp
  next
    fix u d assume "?Q u" then show "?Q (snd (time_sleep m d u))"
      using ps unfolding pin_store_def by metis
  next
    fix u md assume "?Q u" then show "?Q (cmd_mode m md u)"
      using ps unfolding pin_store_def by metis
  next
    fix u assume "?Q u" then show "?Q (cmd_wait_complete m u)"
      using ps unfolding pin_store_def by metis
  next
    fix u g assume "?Q u" then show "?Q (cmd_mdi m g u)"
      using ps unfolding pin_store_def by metis
  qed
  then have "\<forall>n\<in>set gain_pins. hal_get_value m n w' = hal_get_value m n w1" .
  with vals show ?thesis by (simp add: gain_pins_def)
qed

subsection \<open>Runs on the scripted machine\<close>

lemma mock_sleep_ok:
  "k \<noteq> Some 0 \<Longrightarrow>
   time_sleep (mock_machine dn) d \<lparr>clock = c, pins = p, frames = fs, ctrl_c = k\<rparr>
     = (None, \<lparr>clock = c + d, pins = p, frames = tl fs, ctrl_c = map_option (\<lambda>n. n - 1) k\<rparr>)"
  by (cases k; auto simp add: mock_machine_def mock_sleep_def Let_def split: nat.splits)

lemma mock_sleep_interrupt:
  "time_sleep (mock_machine dn) d \<lparr>clock = c, pins = p, frames = fs, ctrl_c = Some 0\<rparr>
     = (Some KeyboardInterrupt, \<lparr>clock = c + d, pins = p, frames = tl fs, ctrl_c = Some 0\<rparr>)"
  by (simp add: mock_machine_def mock_sleep_def)

lemma wait_ready_rest:
  "fs = [] \<or> hd fs = rest_frame \<Longrightarrow>
   wait_ready (mock_machine dn) 10 \<lparr>clock = c, pins = p, frames = fs, ctrl_c = k\<rparr>
     = Some (Inr True, \<lparr>clock = c, pins = p, frames = fs, ctrl_c = k\<rparr>)"
  unfolding wait_ready_def
  by (subst wait_ready_loop.simps)
     (cases fs; auto simp add: mock_machine_def mock_poll_def current_frame_def rest_frame_def)

lemma collect_loop_rest:
  "fs = [] \<or> hd fs = rest_frame \<Longrightarrow>
   collect_loop (mock_machine dn) st t errs \<lparr>clock = c, pins = p, frames = fs, ctrl_c = k\<rparr>
     = Some (Inr errs, \<lparr>clock = c, pins = p, frames = fs, ctrl_c = k\<rparr>)"
  by (subst collect_loop.simps)
     (cases fs; auto simp add: mock_machine_def mock_poll_def mock_get_value_def current_frame_def
        rest_frame_def getp_def)

lemma collect_loop_moving:
  assumes "c - st < t"
  shows "collect_loop (mock_machine False) st t errs
       \<lparr>clock = c, pins = p, frames = moving_frame e # fs, ctrl_c = k\<rparr>
     = (case time_sleep (mock_machine False) 0.002
               \<lparr>clock = c, pins = p, frames = moving_frame e # fs, ctrl_c = k\<rparr> of
          (Some ex, w') \<Rightarrow> Some (Inl ex, w')
        | (None, w') \<Rightarrow> collect_loop (mock_machine False) st t (errs @ [\<bar>e\<bar> * 1000]) w')"
proof -
  have m: "max \<bar>e * 1000\<bar> \<bar>0::real\<bar> = \<bar>e\<bar> * 1000" by (simp add: abs_mult)
  from assms show ?thesis
    apply (subst collect_loop.simps)
    apply (simp add: mock_machine_def mock_get_value_def mock_poll_def current_frame_def
        moving_frame_def getp_def Let_def)
    unfolding m
    apply (rule refl)
    done
qed

lemma apply_params_mock:
  "params ''P'' \<noteq> None \<Longrightarrow> params ''I'' \<noteq> None \<Longrightarrow> params ''D'' \<noteq> None \<Longrightarrow>
   params ''FF1'' \<noteq> None \<Longrightarrow> params ''FF2'' \<noteq> None \<Longrightarrow>
   apply_params (mock_machine False) params \<lparr>clock = c, pins = p, frames = fs, ctrl_c = k\<rparr>
     = (Inr (), \<lparr>clock = c, pins = gains_written params p, frames = fs, ctrl_c = k\<rparr>)"
  by (auto simp add: apply_params_def apply_params_axis_def mock_machine_def mock_set_p_def
        setp_def gains_written_def)

lemma collect_during_move_mock:
  assumes cfg: "test_distance self = 15" "test_feed self = 10000"
  shows "collect_during_move self (mock_machine False) x y w =
     (case time_sleep (mock_machine False) 0.01 w of
        (Some e, w2) \<Rightarrow> Some (Inl e, w2)
      | (None, w2) \<Rightarrow>
          (case collect_loop (mock_machine False) (clock w2) 0.635 [] w2 of
               None \<Rightarrow> None
             | Some (Inl e, w3) \<Rightarrow> Some (Inl e, w3)
             | Some (Inr errors, w3) \<Rightarrow>
                 (case wait_ready (mock_machine False) 10 w3 of
                    None \<Rightarrow> None
                  | Some (Inl e, w4) \<Rightarrow> Some (Inl e, w4)
                  | Some (Inr ready, w4) \<Rightarrow> Some (Inr errors, w4))))"
proof -
  have a: "snd (run_move self (mock_machine False) x y w) = w"
    by (simp add: run_move_def mock_machine_def mock_poll_def)
  have b: "test_feed self / 60 \<noteq> 0"
    "test_distance self * 1.5 / (test_feed self / 60) + 0.5 = 0.635"
    by (simp_all add: cfg)
  have c: "time_time (mock_machine False) = clock" by (simp add: mock_machine_def)
  show ?thesis
    unfolding collect_during_move_def Let_def a b(2) c using b(1)
    by (simp cong: prod.case_cong option.case_cong)
qed

lemma leg_rest:
  assumes cfg: "test_distance self = 15" "test_feed self = 10000"
    and "k \<noteq> Some 0" "tl fs = [] \<or> hd (tl fs) = rest_frame"
  shows "collect_during_move self (mock_machine False) x y
       \<lparr>clock = c, pins = p, frames = fs, ctrl_c = k\<rparr>
     = Some (Inr [], \<lparr>clock = c + 0.01, pins = p, frames = tl fs, ctrl_c = map_option (\<lambda>n. n - 1) k\<rparr>)"
  using assms
  by (simp add: collect_during_move_mock[OF cfg] mock_sleep_ok collect_loop_rest wait_ready_rest)

lemma leg_interrupted:
  assumes cfg: "test_distance self = 15" "test_feed self = 10000"
  shows "collect_during_move self (mock_machine False) x y
       \<lparr>clock = c, pins = p, frames = fs, ctrl_c = Some 0\<rparr>
     = Some (Inl KeyboardInterrupt, \<lparr>clock = c + 0.01, pins = p, frames = tl fs, ctrl_c = Some 0\<rparr>)"
  by (simp add: collect_during_move_mock[OF cfg] mock_sleep_interrupt)

lemma leg_moving:
  assumes cfg: "test_distance self = 15" "test_feed self = 10000"
    and "k \<noteq> Some 0" "k \<noteq> Some 1" "fs = [] \<or> hd fs = rest_frame"
  shows "collect_during_move self (mock_machine False) x y
       \<lparr>clock = c, pins = p, frames = f0 # moving_frame e # fs, ctrl_c = k\<rparr>
     = Some (Inr [\<bar>e\<bar> * 1000],
         \<lparr>clock = c + 0.012, pins = p, frames = fs, ctrl_c = map_option (\<lambda>n. n - 2) k\<rparr>)"
proof -
  have k1: "map_option (\<lambda>n. n - 1) k \<noteq> Some 0" using assms(3,4) by (cases k) auto
  have k2: "map_option (\<lambda>n. n - Suc 0) (map_option (\<lambda>n. n - Suc 0) k) = map_option (\<lambda>n. n - 2) k"
    by (cases k) auto
  show ?thesis
    using assms k1
    by (simp add: collect_during_move_mock[OF cfg] mock_sleep_ok collect_loop_moving collect_loop_rest
        wait_ready_rest k2)
qed

lemma evaluate_samples_mock_moving:
  assumes cfg: "test_distance self = 15" "test_feed self = 10000"
    and keys: "params ''P'' \<noteq> None" "params ''I'' \<noteq> None" "params ''D'' \<noteq> None"
      "params ''FF1'' \<noteq> None" "params ''FF2'' \<noteq> None"
    and k: "k \<noteq> Some 0" "k \<noteq> Some 1" "k \<noteq> Some 2"
    and fs: "fs = [] \<or> hd fs = rest_frame" "tl fs = [] \<or> hd (tl fs) = rest_frame"
  shows "evaluate_samples self (mock_machine False) params
       \<lparr>clock = c, pins = p, frames = f0 # moving_frame e # fs, ctrl_c = k\<rparr>
     = Some (Inr [\<bar>e\<bar> * 1000],
         \<lparr>clock = c + 0.022, pins = gains_written params p, frames = tl fs,
           ctrl_c = map_option (\<lambda>n. n - 3) k\<rparr>)"
proof -
  have k2: "map_option (\<lambda>n. n - 2) k \<noteq> Some 0" using k by (cases k) auto
  have k3: "map_option (\<lambda>n. n - Suc 0) (map_option (\<lambda>n. n - 2) k) = map_option (\<lambda>n. n - 3) k"
    by (cases k) auto
  show ?thesis
    using keys k fs k2
    by (simp add: evaluate_samples_def apply_params_mock get_position_def leg_moving[OF cfg] leg_rest[OF cfg] k3)
qed

lemma evaluate_mock_moving:
  assumes cfg: "test_distance self = 15" "test_feed self = 10000"
    and keys: "params ''P'' \<noteq> None" "params ''I'' \<noteq> None" "params ''D'' \<noteq> None"
      "params ''FF1'' \<noteq> None" "params ''FF2'' \<noteq> None"
    and k: "k \<noteq> Some 0" "k \<noteq> Some 1" "k \<noteq> Some 2"
    and fs: "fs = [] \<or> hd fs = rest_frame" "tl fs = [] \<or> hd (tl fs) = rest_frame"
  shows "evaluate self (mock_machine False) params
       \<lparr>clock = c, pins = p, frames = f0 # moving_frame e # fs, ctrl_c = k\<rparr>
     = Some (Inr (\<bar>e\<bar> * 1000),
         \<lparr>clock = c + 0.022, pins = gains_written params p, frames = tl fs,
           ctrl_c = map_option (\<lambda>n. n - 3) k\<rparr>)"
  by (simp add: evaluate_def evaluate_samples_mock_moving[OF assms] evaluate_cost_single abs_mult)

lemma evaluate_samples_mock_rest:
  assumes cfg: "test_distance self = 15" "test_feed self = 10000"
    and keys: "params ''P'' \<noteq> None" "params ''I'' \<noteq> None" "params ''D'' \<noteq> None"
      "params ''FF1'' \<noteq> None" "params ''FF2'' \<noteq> None"
  shows "evaluate_samples self (mock_machine False) params
       \<lparr>clock = c, pins = p, frames = [], ctrl_c = None\<rparr>
     = Some (Inr [],
         \<lparr>clock = c + 0.02, pins = gains_written params p, frames = [], ctrl_c = None\<rparr>)"
  using keys
  by (simp add: evaluate_samples_def apply_params_mock get_position_def leg_rest[OF cfg])

lemma evaluate_mock_interrupted:
  assumes cfg: "test_distance self = 15" "test_feed self = 10000"
    and keys: "params ''P'' \<noteq> None" "params ''I'' \<noteq> None" "params ''D'' \<noteq> None"
      "params ''FF1'' \<noteq> None" "params ''FF2'' \<noteq> None"
  shows "evaluate self (mock_machine False) params
       \<lparr>clock = c, pins = p, frames = fs, ctrl_c = Some 0\<rparr>
     = Some (Inl KeyboardInterrupt,
         \<lparr>clock = c + 0.01, pins = gains_written params p, frames = tl fs, ctrl_c = Some 0\<rparr>)"
  using keys
  by (simp add: evaluate_def evaluate_samples_def apply_params_mock get_position_def leg_interrupted[OF cfg])

lemma getp_mock_gain:
  "name \<notin> {''pid.x.error'', ''pid.y.error'', ''pid.x.output'', ''pid.y.output''} \<Longrightarrow>
   getp (mock_machine False) name \<lparr>clock = c, pins = p, frames = fs, ctrl_c = k\<rparr>
     = (case p name of None \<Rightarrow> 0 | Some v \<Rightarrow> v)"
  by (auto simp: getp_def mock_machine_def mock_get_value_def split: option.splits)

lemma get_current_params_mock:
  "get_current_params (mock_machine False) \<lparr>clock = c, pins = p, frames = fs, ctrl_c = k\<rparr>
     = [''P'' \<mapsto> (case p ''pid.x.Pgain'' of None \<Rightarrow> 0 | Some v \<Rightarrow> v),
        ''I'' \<mapsto> (case p ''pid.x.Igain'' of None \<Rightarrow> 0 | Some v \<Rightarrow> v),
        ''D'' \<mapsto> (case p ''pid.x.Dgain'' of None \<Rightarrow> 0 | Some v \<Rightarrow> v),
        ''FF1'' \<mapsto> (case p ''pid.x.FF1'' of None \<Rightarrow> 0 | Some v \<Rightarrow> v),
        ''FF2'' \<mapsto> (case p ''pid.x.FF2'' of None \<Rightarrow> 0 | Some v \<Rightarrow> v)]"
  by (simp add: get_current_params_def getp_mock_gain)

lemma search_unfold:
  "0 < budget \<Longrightarrow> search m strat budget param_names hist s =
     (case strat hist of
        None \<Rightarrow> Some (Inr (), s)
      | Some x \<Rightarrow>
          (case objective m x param_names s of
             None \<Rightarrow> None
           | Some (Inl e, s') \<Rightarrow> Some (Inl e, s')
           | Some (Inr rms, s') \<Rightarrow> search m strat (budget - 1) param_names (hist @ [(x, rms)]) s'))"
  by (cases budget; hypsubst_thin; simp only: search.simps diff_Suc_1)

lemma rest_ne_moving: "rest_frame \<noteq> moving_frame e" "moving_frame e \<noteq> rest_frame"
  by (simp_all add: rest_frame_def moving_frame_def)

lemmas run_mock_simps = run_def Let_def run_choice_def optimize_nelder_mead_def objective_def
  search_unfold get_current_params_mock evaluate_mock_moving evaluate_mock_interrupted
  record_result_def scripted_scipy_def scripted_strategy_def gains_written_def init_optimizer_def
  mock_world_def nth_append


lemma sleep_advances_calm: "sleep_advances (calm_machine dn)"
  by (auto simp: sleep_advances_def calm_machine_def mock_machine_def mock_sleep_def Let_def
      split: option.splits nat.splits)

lemma never_interrupted_calm: "never_interrupted (calm_machine dn)"
  by (simp add: never_interrupted_def calm_machine_def)

lemma reads_fail_calm: "reads_fail (calm_machine True)"
  by (simp add: reads_fail_def calm_machine_def mock_machine_def mock_get_value_def)

lemma gain_pin_not_telemetry:
  "n \<in> set gain_pins \<Longrightarrow>
   n \<noteq> ''pid.x.error'' \<and> n \<noteq> ''pid.y.error'' \<and> n \<noteq> ''pid.x.output'' \<and> n \<noteq> ''pid.y.output''"
  by (auto simp: gain_pins_def)

lemma mock_get_gain:
  "n \<in> set gain_pins \<Longrightarrow>
   mock_get_value False n w = (case pins w n of None \<Rightarrow> Inl HalError | Some v \<Rightarrow> Inr v)"
  using gain_pin_not_telemetry[of n] by (simp add: mock_get_value_def)

lemma mock_set_gain:
  "n \<in> set gain_pins \<Longrightarrow> mock_set_p False n v w = Inr (w\<lparr>pins := (pins w)(n \<mapsto> v)\<rparr>)"
  using gain_pin_not_telemetry[of n] by (simp add: mock_set_p_def)

lemma pins_mock_sleep: "pins (snd (mock_sleep d w)) = pins w"
  by (simp add: mock_sleep_def Let_def split: option.splits nat.splits)

lemma pin_store_mock: "pin_store (mock_machine False)"
  unfolding pin_store_def
proof (intro conjI allI impI)
  fix n v w assume n: "n \<in> set gain_pins"
  show "\<exists>w'. hal_set_p (mock_machine False) n v w = Inr w' \<and>
            hal_get_value (mock_machine False) n w' = Inr v \<and>
            (\<forall>n'. n' \<in> set gain_pins \<and> n' \<noteq> n \<longrightarrow>
                  hal_get_value (mock_machine False) n' w' = hal_get_value (mock_machine False) n' w)"
    using n by (simp add: mock_machine_def mock_set_gain mock_get_gain)
next
  fix n w d assume n: "n \<in> set gain_pins"
  show "hal_get_value (mock_machine False) n (snd (time_sleep (mock_machine False) d w))
      = hal_get_value (mock_machine False) n w"
    using n by (simp add: mock_machine_def mock_get_gain pins_mock_sleep)
next
  fix n w md assume n: "n \<in> set gain_pins"
  show "hal_get_value (mock_machine False) n (cmd_mode (mock_machine False) md w)
      = hal_get_value (mock_machine False) n w"
    by (simp add: mock_machine_def)
next
  fix n w assume n: "n \<in> set gain_pins"
  show "hal_get_value (mock_machine False) n (cmd_wait_complete (mock_machine False) w)
      = hal_get_value (mock_machine False) n w"
    by (simp add: mock_machine_def)
next
  fix n w g assume n: "n \<in> set gain_pins"
  show "hal_get_value (mock_machine False) n (cmd_mdi (mock_machine False) g w)
      = hal_get_value (mock_machine False) n w"
    by (simp add: mock_machine_def)
qed

lemma the_some: "r = Some (a, b) \<Longrightarrow> r = Some (a, snd (the r))"
  by simp

subsection \<open>The time a polling loop takes\<close>












subsection \<open>What a run prints and saves\<close>



lemma objective_cases:
  assumes "objective m x param_names s = Some (r, s')"
  shows "(\<exists>e w'. r = Inl e \<and> s' = s\<lparr>world := w'\<rparr>)
     \<or> (\<exists>e. r = Inl e \<and> s' = s)
     \<or> (\<exists>rms params w'. r = Inr rms \<and>
           s' = s\<lparr>opt := record_result params rms (opt s), world := w',
                  console := console s @ [Progress (eval_count (record_result params rms (opt s))) x rms
                                           (best_rms (record_result params rms (opt s)))]\<rparr>)"
  using assms
  by (auto simp: objective_def Let_def split: sum.splits option.splits prod.splits)

lemma search_preserves:
  assumes step: "\<And>x s r s'. P s \<Longrightarrow> objective m x param_names s = Some (r, s') \<Longrightarrow> P s'"
  shows "P s \<Longrightarrow> search m strat budget param_names hist s = Some (r, s') \<Longrightarrow> P s'"
proof (induction budget arbitrary: hist s)
  case 0
  then show ?case by simp
next
  case (Suc budget)
  show ?case
  proof (cases "strat hist")
    case None
    with Suc.prems show ?thesis by simp
  next
    case (Some x)
    from Suc.prems Some obtain r1 s1 where ob: "objective m x param_names s = Some (r1, s1)"
      by (cases "objective m x param_names s") auto
    from step[OF Suc.prems(1) ob] have p1: "P s1" .
    show ?thesis
    proof (cases r1)
      case (Inl e)
      with Suc.prems Some ob p1 show ?thesis by simp
    next
      case (Inr rms)
      with Suc.prems Some ob have "search m strat budget param_names (hist @ [(x, rms)]) s1 = Some (r, s')"
        by simp
      from Suc.IH[OF p1 this] show ?thesis .
    qed
  qed
qed

lemma lookup_all_raises_key_error:
  "lookup_all d names = Inl e \<Longrightarrow> \<exists>k. e = KeyError k"
  by (induction names arbitrary: e) (auto split: option.splits sum.splits)

lemma optimize_nelder_mead_cases:
  assumes run: "optimize_nelder_mead sp m param_names s = Some (r, s')"
  shows "(\<exists>k. r = Inl (KeyError k) \<and> s' = s)
     \<or> (\<exists>strat r1. search m strat (nelder_mead_budget sp) param_names []
                      (s\<lparr>opt := (opt s)\<lparr>eval_count := 0, best_rms := 999\<rparr>\<rparr>) = Some (r1, s')
            \<and> (case r1 of Inl e \<Rightarrow> r = Inl e
                | Inr u \<Rightarrow> r = Inr (best_params (opt s'), best_rms (opt s'))))"
proof (cases "lookup_all (get_current_params m (world s)) param_names")
  case (Inl e)
  with run lookup_all_raises_key_error[OF Inl] show ?thesis
    by (auto simp: optimize_nelder_mead_def Let_def simp del: lookup_all.simps)
next
  case x0: (Inr x0)
  show ?thesis
  proof (cases "lookup_all (bounds (opt s)) param_names")
    case (Inl e)
    with run x0 lookup_all_raises_key_error[OF Inl] show ?thesis
      by (auto simp: optimize_nelder_mead_def Let_def simp del: lookup_all.simps)
  next
    case (Inr bounds_list)
    let ?s1 = "s\<lparr>opt := (opt s)\<lparr>eval_count := 0, best_rms := 999\<rparr>\<rparr>"
    let ?se = "search m (minimize_nelder_mead sp x0) (nelder_mead_budget sp) param_names [] ?s1"
    from run x0 Inr obtain r1 s2 where se: "?se = Some (r1, s2)"
      by (cases ?se) (auto simp: optimize_nelder_mead_def Let_def simp del: lookup_all.simps)
    with run x0 Inr have "s2 = s'"
      "case r1 of Inl e \<Rightarrow> r = Inl e | Inr u \<Rightarrow> r = Inr (best_params (opt s'), best_rms (opt s'))"
      by (auto simp: optimize_nelder_mead_def Let_def simp del: lookup_all.simps split: sum.splits)
    with se show ?thesis by blast
  qed
qed

lemma optimize_de_cases:
  assumes run: "optimize_de sp m param_names s = Some (r, s')"
  shows "(\<exists>k. r = Inl (KeyError k) \<and> s' = s)
     \<or> (\<exists>strat r1. search m strat (de_budget sp) param_names []
                      (s\<lparr>opt := (opt s)\<lparr>eval_count := 0, best_rms := 999\<rparr>\<rparr>) = Some (r1, s')
            \<and> (case r1 of Inl e \<Rightarrow> r = Inl e
                | Inr u \<Rightarrow> r = Inr (best_params (opt s'), best_rms (opt s'))))"
proof (cases "lookup_all (bounds (opt s)) param_names")
  case (Inl e)
  with run lookup_all_raises_key_error[OF Inl] show ?thesis
    by (auto simp: optimize_de_def Let_def simp del: lookup_all.simps)
next
  case (Inr bounds_list)
  let ?s1 = "s\<lparr>opt := (opt s)\<lparr>eval_count := 0, best_rms := 999\<rparr>\<rparr>"
  let ?se = "search m (differential_evolution sp bounds_list) (de_budget sp) param_names [] ?s1"
  from run Inr obtain r1 s2 where se: "?se = Some (r1, s2)"
    by (cases ?se) (auto simp: optimize_de_def Let_def simp del: lookup_all.simps)
  with run Inr have "s2 = s'"
    "case r1 of Inl e \<Rightarrow> r = Inl e | Inr u \<Rightarrow> r = Inr (best_params (opt s'), best_rms (opt s'))"
    by (auto simp: optimize_de_def Let_def simp del: lookup_all.simps split: sum.splits)
  with se show ?thesis by blast
qed



subsection \<open>The result tracker\<close>

lemma progress_costs_append: "progress_costs (a @ b) = progress_costs a @ progress_costs b"
  by (induction a rule: progress_costs.induct) auto

lemma progress_bests_append: "progress_bests (a @ b) = progress_bests a @ progress_bests b"
  by (induction a rule: progress_bests.induct) auto

lemma Min_insert_insert:
  assumes "finite S"
  shows "Min (insert a (insert b S)) = min b (Min (insert a S))"
proof -
  have "Min (insert b (insert a S)) = min b (Min (insert a S))"
    using assms by (intro Min_insert) auto
  then show ?thesis by (simp add: insert_commute)
qed

lemma Min_insert_covered:
  assumes "finite S" "c \<in> S" "c \<le> b"
  shows "Min (insert b S) = Min S"
proof -
  from assms(2) have ne: "S \<noteq> {}" by auto
  have "Min S \<le> c" using assms(1,2) by simp
  then have "Min S \<le> b" using assms(3) by simp
  then show ?thesis by (simp add: Min_insert[OF assms(1) ne] min_def)
qed

lemma best_rms_record_result: "best_rms (record_result params rms self) = min rms (best_rms self)"
  by (simp add: record_result_def Let_def min_def)

lemma best_params_record_result:
  "best_params (record_result params rms self) = (if rms < best_rms self then params else best_params self)"
  by (simp add: record_result_def Let_def)

lemma objective_records:
  assumes "objective m x param_names s = Some (Inr rms, s')"
  shows "\<exists>params. opt s' = record_result params rms (opt s)
           \<and> console s' = console s @ [Progress (eval_count (opt s')) x rms (best_rms (opt s'))]
           \<and> hal_file s' = hal_file s"
  using objective_cases[OF assms] by auto

lemma objective_records_params:
  assumes "objective m x param_names q = Some (Inr rms, q')"
  shows "\<exists>params. assign_params (get_current_params m (world q)) x 0 param_names = Inr params
           \<and> opt q' = record_result params rms (opt q)"
  using assms
  by (auto simp: objective_def Let_def split: sum.splits option.splits prod.splits)

lemma objective_raises:
  assumes "objective m x param_names s = Some (Inl e, s')"
  shows "opt s' = opt s \<and> console s' = console s \<and> hal_file s' = hal_file s"
  using objective_cases[OF assms] by auto


lemma objective_best_since:
  assumes p: "\<exists>ls. console s = console s0 @ ls
              \<and> best_rms (opt s) = Min (insert (best_rms (opt s0)) (set (progress_costs ls)))
              \<and> sorted_wrt (\<lambda>a b. b \<le> a) (best_rms (opt s0) # progress_bests ls)
              \<and> (\<forall>b \<in> set (best_rms (opt s0) # progress_bests ls). best_rms (opt s) \<le> b)"
    and ob: "objective m x param_names s = Some (r, s')"
  shows "\<exists>ls. console s' = console s0 @ ls
              \<and> best_rms (opt s') = Min (insert (best_rms (opt s0)) (set (progress_costs ls)))
              \<and> sorted_wrt (\<lambda>a b. b \<le> a) (best_rms (opt s0) # progress_bests ls)
              \<and> (\<forall>b \<in> set (best_rms (opt s0) # progress_bests ls). best_rms (opt s') \<le> b)"
proof (cases r)
  case (Inl ex)
  with ob objective_raises[of m x param_names s ex s'] p show ?thesis by simp
next
  case (Inr rms)
  with ob objective_records[of m x param_names s rms s'] obtain params where
    o: "opt s' = record_result params rms (opt s)"
    and c: "console s' = console s @ [Progress (eval_count (opt s')) x rms (best_rms (opt s'))]"
    by blast
  from p obtain ls where ls: "console s = console s0 @ ls"
    "best_rms (opt s) = Min (insert (best_rms (opt s0)) (set (progress_costs ls)))"
    "sorted_wrt (\<lambda>a b. b \<le> a) (best_rms (opt s0) # progress_bests ls)"
    "\<forall>b \<in> set (best_rms (opt s0) # progress_bests ls). best_rms (opt s) \<le> b"
    by blast
  let ?l = "Progress (eval_count (opt s')) x rms (best_rms (opt s'))"
  have b': "best_rms (opt s') = min rms (best_rms (opt s))"
    by (simp add: o best_rms_record_result)
  have le: "best_rms (opt s') \<le> best_rms (opt s)" by (simp add: b')
  have 1: "console s' = console s0 @ (ls @ [?l])" by (subst c) (simp add: ls(1))
  have 2: "best_rms (opt s') = Min (insert (best_rms (opt s0)) (set (progress_costs (ls @ [?l]))))"
    by (simp add: b' ls(2) progress_costs_append Min_insert_insert del: Min_insert)
  have 4: "\<forall>b \<in> set (best_rms (opt s0) # progress_bests (ls @ [?l])). best_rms (opt s') \<le> b"
    using ls(4) le by (auto simp: progress_bests_append)
  have "sorted_wrt (\<lambda>a b. b \<le> a) ((best_rms (opt s0) # progress_bests ls) @ [best_rms (opt s')])"
    unfolding sorted_wrt_append using ls(3,4) le by auto
  then have 3: "sorted_wrt (\<lambda>a b. b \<le> a) (best_rms (opt s0) # progress_bests (ls @ [?l]))"
    by (simp add: progress_bests_append)
  from 1 2 3 4 show ?thesis by blast
qed

lemma search_best_since:
  assumes "search m strat budget param_names hist s = Some (r, s')"
  shows "\<exists>ls. console s' = console s @ ls
              \<and> best_rms (opt s') = Min (insert (best_rms (opt s)) (set (progress_costs ls)))
              \<and> sorted_wrt (\<lambda>a b. b \<le> a) (best_rms (opt s) # progress_bests ls)
              \<and> (\<forall>b \<in> set (best_rms (opt s) # progress_bests ls). best_rms (opt s') \<le> b)"
proof (rule search_preserves[where m = m and param_names = param_names and s = s and s' = s'
      and P = "\<lambda>q. \<exists>ls. console q = console s @ ls
              \<and> best_rms (opt q) = Min (insert (best_rms (opt s)) (set (progress_costs ls)))
              \<and> sorted_wrt (\<lambda>a b. b \<le> a) (best_rms (opt s) # progress_bests ls)
              \<and> (\<forall>b \<in> set (best_rms (opt s) # progress_bests ls). best_rms (opt q) \<le> b)"])
  show "search m strat budget param_names hist s = Some (r, s')" by (rule assms)
  show "\<exists>ls. console s = console s @ ls
              \<and> best_rms (opt s) = Min (insert (best_rms (opt s)) (set (progress_costs ls)))
              \<and> sorted_wrt (\<lambda>a b. b \<le> a) (best_rms (opt s) # progress_bests ls)
              \<and> (\<forall>b \<in> set (best_rms (opt s) # progress_bests ls). best_rms (opt s) \<le> b)"
    by (rule exI[of _ "[]"]) simp
next
  fix x q r q'
  assume "\<exists>ls. console q = console s @ ls
              \<and> best_rms (opt q) = Min (insert (best_rms (opt s)) (set (progress_costs ls)))
              \<and> sorted_wrt (\<lambda>a b. b \<le> a) (best_rms (opt s) # progress_bests ls)
              \<and> (\<forall>b \<in> set (best_rms (opt s) # progress_bests ls). best_rms (opt q) \<le> b)"
    and "objective m x param_names q = Some (r, q')"
  then show "\<exists>ls. console q' = console s @ ls
              \<and> best_rms (opt q') = Min (insert (best_rms (opt s)) (set (progress_costs ls)))
              \<and> sorted_wrt (\<lambda>a b. b \<le> a) (best_rms (opt s) # progress_bests ls)
              \<and> (\<forall>b \<in> set (best_rms (opt s) # progress_bests ls). best_rms (opt q') \<le> b)"
    by (rule objective_best_since)
qed

lemma printed_since_append: "console s' = console s @ ls \<Longrightarrow> printed_since s s' = ls"
  by (simp add: printed_since_def)

lemma search_best:
  assumes "search m strat budget param_names hist s = Some (r, s')"
  shows "console s' = console s @ printed_since s s'"
    and "best_rms (opt s') = Min (insert (best_rms (opt s)) (set (progress_costs (printed_since s s'))))"
    and "sorted_wrt (\<lambda>a b. b \<le> a) (best_rms (opt s) # progress_bests (printed_since s s'))"
    and "best_rms (opt s') \<le> best_rms (opt s)"
proof -
  from search_best_since[OF assms] obtain ls where ls: "console s' = console s @ ls"
    "best_rms (opt s') = Min (insert (best_rms (opt s)) (set (progress_costs ls)))"
    "sorted_wrt (\<lambda>a b. b \<le> a) (best_rms (opt s) # progress_bests ls)"
    "\<forall>b \<in> set (best_rms (opt s) # progress_bests ls). best_rms (opt s') \<le> b"
    by blast
  have p: "printed_since s s' = ls" using ls(1) by (rule printed_since_append)
  show "console s' = console s @ printed_since s s'" by (simp add: p ls(1))
  show "best_rms (opt s') = Min (insert (best_rms (opt s)) (set (progress_costs (printed_since s s'))))"
    by (simp only: p ls(2))
  show "sorted_wrt (\<lambda>a b. b \<le> a) (best_rms (opt s) # progress_bests (printed_since s s'))"
    by (simp only: p ls(3))
  show "best_rms (opt s') \<le> best_rms (opt s)" using ls(4) by simp
qed

lemma printed_since_reset:
  "printed_since (s\<lparr>opt := ob\<rparr>) s' = printed_since s s'"
  by (simp add: printed_since_def)

lemma search_after_reset:
  assumes se: "search m strat budget param_names hist
                 (s\<lparr>opt := (opt s)\<lparr>eval_count := 0, best_rms := 999\<rparr>\<rparr>) = Some (r1, s')"
  shows "console s' = console s @ printed_since s s'
     \<and> best_rms (opt s') = Min (insert 999 (set (progress_costs (printed_since s s'))))
     \<and> sorted_wrt (\<lambda>a b. b \<le> a) (999 # progress_bests (printed_since s s'))"
  using search_best(1-3)[OF se] by (simp add: printed_since_reset)

lemma optimize_nelder_mead_best:
  assumes run: "optimize_nelder_mead sp m param_names s = Some (r, s')"
  shows "(\<exists>k. r = Inl (KeyError k) \<and> s' = s)
     \<or> (console s' = console s @ printed_since s s'
         \<and> best_rms (opt s') = Min (insert 999 (set (progress_costs (printed_since s s'))))
         \<and> sorted_wrt (\<lambda>a b. b \<le> a) (999 # progress_bests (printed_since s s'))
         \<and> (\<forall>bp br. r = Inr (bp, br) \<longrightarrow> bp = best_params (opt s') \<and> br = best_rms (opt s')))"
proof -
  from optimize_nelder_mead_cases[OF run] consider k where "r = Inl (KeyError k)" "s' = s"
    | strat r1 where "search m strat (nelder_mead_budget sp) param_names []
                      (s\<lparr>opt := (opt s)\<lparr>eval_count := 0, best_rms := 999\<rparr>\<rparr>) = Some (r1, s')"
       "case r1 of Inl e \<Rightarrow> r = Inl e | Inr u \<Rightarrow> r = Inr (best_params (opt s'), best_rms (opt s'))"
    by blast
  then show ?thesis
  proof cases
    case 1
    then show ?thesis by blast
  next
    case 2
    from 2(2) have "\<forall>bp br. r = Inr (bp, br) \<longrightarrow> bp = best_params (opt s') \<and> br = best_rms (opt s')"
      by (cases r1) auto
    with search_after_reset[OF 2(1)] show ?thesis by blast
  qed
qed

lemma optimize_de_best:
  assumes run: "optimize_de sp m param_names s = Some (r, s')"
  shows "(\<exists>k. r = Inl (KeyError k) \<and> s' = s)
     \<or> (console s' = console s @ printed_since s s'
         \<and> best_rms (opt s') = Min (insert 999 (set (progress_costs (printed_since s s'))))
         \<and> sorted_wrt (\<lambda>a b. b \<le> a) (999 # progress_bests (printed_since s s'))
         \<and> (\<forall>bp br. r = Inr (bp, br) \<longrightarrow> bp = best_params (opt s') \<and> br = best_rms (opt s')))"
proof -
  from optimize_de_cases[OF run] consider k where "r = Inl (KeyError k)" "s' = s"
    | strat r1 where "search m strat (de_budget sp) param_names []
                      (s\<lparr>opt := (opt s)\<lparr>eval_count := 0, best_rms := 999\<rparr>\<rparr>) = Some (r1, s')"
       "case r1 of Inl e \<Rightarrow> r = Inl e | Inr u \<Rightarrow> r = Inr (best_params (opt s'), best_rms (opt s'))"
    by blast
  then show ?thesis
  proof cases
    case 1
    then show ?thesis by blast
  next
    case 2
    from 2(2) have "\<forall>bp br. r = Inr (bp, br) \<longrightarrow> bp = best_params (opt s') \<and> br = best_rms (opt s')"
      by (cases r1) auto
    with search_after_reset[OF 2(1)] show ?thesis by blast
  qed
qed


subsection \<open>The menu and the interrupted run\<close>

lemma wrapped_result:
  "(case r0 of None \<Rightarrow> None
     | Some (Inl e, s1) \<Rightarrow> Some (Inl e, s1)
     | Some (Inr res, s1) \<Rightarrow> Some (Inr (Some res), s1)) = Some (r, s')
   \<Longrightarrow> \<exists>r1. r0 = Some (r1, s') \<and> (case r1 of Inl e \<Rightarrow> r = Inl e | Inr res \<Rightarrow> r = Inr (Some res))"
  by (auto split: option.splits sum.splits prod.splits)

lemma run_choice_cases:
  assumes rc: "run_choice sp m choice s = Some (r, s')"
  shows "(choice \<noteq> ''3'' \<and> (\<exists>names r1.
            (optimize_nelder_mead sp m names s = Some (r1, s') \<or> optimize_de sp m names s = Some (r1, s'))
            \<and> (case r1 of Inl e \<Rightarrow> r = Inl e | Inr res \<Rightarrow> r = Inr (Some res))))
     \<or> (choice \<noteq> ''3'' \<and> r = Inr None \<and> s' = s\<lparr>console := console s @ [InvalidChoice]\<rparr>)
     \<or> (choice = ''3'' \<and> (\<exists>e. optimize_de sp m [''P'', ''I'', ''FF1''] s = Some (Inl e, s') \<and> r = Inl e))
     \<or> (choice = ''3'' \<and> (\<exists>res s1 e w2. optimize_de sp m [''P'', ''I'', ''FF1''] s = Some (Inr res, s1)
            \<and> apply_params m (fst res) (world s1) = (Inl e, w2) \<and> r = Inl e \<and> s' = s1\<lparr>world := w2\<rparr>))
     \<or> (choice = ''3'' \<and> (\<exists>res s1 w2 r3. optimize_de sp m [''P'', ''I'', ''FF1''] s = Some (Inr res, s1)
            \<and> apply_params m (fst res) (world s1) = (Inr (), w2)
            \<and> optimize_nelder_mead sp m [''P'', ''I'', ''D'', ''FF1'', ''FF2''] (s1\<lparr>world := w2\<rparr>)
                 = Some (r3, s')
            \<and> (case r3 of Inl e \<Rightarrow> r = Inl e | Inr res \<Rightarrow> r = Inr (Some res))))"
proof -
  consider (c1) "choice = ''1''" | (c2) "choice = ''2''" | (c3) "choice = ''3''"
    | (c4) "choice = ''4''" | (c5) "choice = ''5''"
    | (other) "choice \<notin> {''1'', ''2'', ''3'', ''4'', ''5''}" by auto
  then show ?thesis
  proof cases
    case c1
    with rc have "\<exists>r1. optimize_nelder_mead sp m [''P'', ''I'', ''FF1''] s = Some (r1, s')
        \<and> (case r1 of Inl e \<Rightarrow> r = Inl e | Inr res \<Rightarrow> r = Inr (Some res))"
      by (intro wrapped_result) (simp add: run_choice_def)
    with c1 show ?thesis by blast
  next
    case c2
    with rc have "\<exists>r1. optimize_de sp m [''P'', ''I'', ''FF1''] s = Some (r1, s')
        \<and> (case r1 of Inl e \<Rightarrow> r = Inl e | Inr res \<Rightarrow> r = Inr (Some res))"
      by (intro wrapped_result) (simp add: run_choice_def)
    with c2 show ?thesis by blast
  next
    case c4
    with rc have "\<exists>r1. optimize_nelder_mead sp m [''P'', ''I''] s = Some (r1, s')
        \<and> (case r1 of Inl e \<Rightarrow> r = Inl e | Inr res \<Rightarrow> r = Inr (Some res))"
      by (intro wrapped_result) (simp add: run_choice_def)
    with c4 show ?thesis by blast
  next
    case c5
    with rc have "\<exists>r1. optimize_de sp m [''P'', ''I'', ''D'', ''FF1'', ''FF2''] s = Some (r1, s')
        \<and> (case r1 of Inl e \<Rightarrow> r = Inl e | Inr res \<Rightarrow> r = Inr (Some res))"
      by (intro wrapped_result) (simp add: run_choice_def)
    with c5 show ?thesis by blast
  next
    case other
    with rc show ?thesis by (auto simp: run_choice_def)
  next
    case c3
    from rc c3 obtain r1 s1 where de: "optimize_de sp m [''P'', ''I'', ''FF1''] s = Some (r1, s1)"
      by (cases "optimize_de sp m [''P'', ''I'', ''FF1''] s") (auto simp: run_choice_def)
    show ?thesis
    proof (cases r1)
      case (Inl e)
      with rc c3 de show ?thesis by (simp add: run_choice_def)
    next
      case (Inr res)
      obtain params rms where res: "res = (params, rms)" by (cases res)
      obtain a w2 where ap: "apply_params m params (world s1) = (a, w2)"
        by (cases "apply_params m params (world s1)")
      show ?thesis
      proof (cases a)
        case (Inl e)
        with rc c3 de Inr res ap have "r = Inl e" "s' = s1\<lparr>world := w2\<rparr>"
          by (simp_all add: run_choice_def)
        with c3 de Inr res ap Inl show ?thesis by auto
      next
        case u: (Inr u)
        with rc c3 de Inr res ap
        have "\<exists>r3. optimize_nelder_mead sp m [''P'', ''I'', ''D'', ''FF1'', ''FF2'']
                 (s1\<lparr>world := w2\<rparr>) = Some (r3, s')
              \<and> (case r3 of Inl e \<Rightarrow> r = Inl e | Inr res \<Rightarrow> r = Inr (Some res))"
          by (intro wrapped_result) (simp add: run_choice_def)
        with c3 de Inr res ap u show ?thesis by auto
      qed
    qed
  qed
qed










subsection \<open>Whole runs on the scripted machine\<close>

lemmas run_mock_more = run_report_def save_to_hal_def optimize_de_def apply_params_mock hybrid_scipy_def
  main_def progress_costs_append

lemma five_search:
  "\<exists>s'. search (mock_machine False) (scripted_strategy proposals30) 5 [''P'', ''I'', ''FF1''] []
        \<lparr>opt = init_optimizer, world = mock_world script5 None, console = [], hal_file = None\<rparr>
      = Some (Inr (), s')
    \<and> console s' = [Progress 1 [100, 50, 1] 50 50, Progress 2 [120, 60, 1] 30 30,
             Progress 3 [140, 70, 1] 45 30, Progress 4 [160, 80, 1] 10 10, Progress 5 [160, 80, 1] 20 10]"
  by (simp add: run_mock_simps script5_def proposals30_def)

lemma five_evaluations:
  "\<exists>bp s'. optimize_nelder_mead (scripted_scipy proposals30 5) (mock_machine False) [''P'', ''I'', ''FF1'']
        \<lparr>opt = init_optimizer, world = mock_world script5 None, console = [], hal_file = None\<rparr>
      = Some (Inr (bp, 10), s')
    \<and> console s' = [Progress 1 [100, 50, 1] 50 50, Progress 2 [120, 60, 1] 30 30,
             Progress 3 [140, 70, 1] 45 30, Progress 4 [160, 80, 1] 10 10, Progress 5 [160, 80, 1] 20 10]"
  by (simp add: run_mock_simps script5_def proposals30_def)

lemma hybrid_choice:
  "\<exists>bp s'. run_choice hybrid_scipy (mock_machine False) ''3''
        \<lparr>opt = init_optimizer,
         world = mock_world [rest_frame, moving_frame 0.01, rest_frame,
                             rest_frame, moving_frame 0.02, rest_frame] None,
         console = [], hal_file = None\<rparr>
      = Some (Inr (Some (bp, 20)), s')
    \<and> console s' = [Progress 1 [120, 60, 1] 10 10, Progress 1 [120, 60, 0, 1, 0] 20 20]"
  by (simp add: run_mock_simps run_mock_more)




section \<open>The claims about the evaluator and the run\<close>

text \<open>
  Claim C1 as stated: before applying a proposal, \<^verbatim>\<open>evaluate\<close> rejects or clamps each value
  to its bound pair. The bounds of P are (50, 200); evaluating a proposal with P = 500 on
  the scripted machine leaves 500 on the pin \<^verbatim>\<open>pid.x.Pgain\<close>.
\<close>

theorem evaluate_applies_out_of_bounds_value:
  "bounds init_optimizer ''P'' = Some (50, 200) \<and> proposal_500 ''P'' = Some 500
   \<and> \<not> (500 :: real) \<le> 200
   \<and> map_option fst (evaluate init_optimizer (mock_machine False) proposal_500 (mock_world [] None))
       = Some (Inr 999)
   \<and> map_option (hal_get_value (mock_machine False) ''pid.x.Pgain'' \<circ> snd)
        (evaluate init_optimizer (mock_machine False) proposal_500 (mock_world [] None))
       = Some (Inr 500)"
proof -
  have "evaluate_samples init_optimizer (mock_machine False) proposal_500 (mock_world [] None)
     = Some (Inr [], \<lparr>clock = 0 + 0.02, pins = gains_written proposal_500 Map.empty, frames = [], ctrl_c = None\<rparr>)"
    unfolding mock_world_def
    by (rule evaluate_samples_mock_rest) (simp_all add: proposal_500_def init_optimizer_def)
  then show ?thesis
    by (simp add: evaluate_def evaluate_cost_def init_optimizer_def mock_machine_def mock_get_value_def
        gains_written_def proposal_500_def)
qed

text \<open>
  Claim C1, amended. \<^verbatim>\<open>evaluate\<close> writes each value of the proposal to both axes
  unchanged, whatever the configured bounds are: on a machine whose gain pins behave as
  memory, after an evaluation of a proposal with all five parameters (however it ends) the
  ten gain pins hold exactly the proposed values. Keeping values within the bounds is left
  to the strategy that makes the proposal.
\<close>

theorem evaluate_applies_proposal_unclamped:
  assumes "pin_store m"
    and "params ''P'' = Some p" "params ''I'' = Some i" "params ''D'' = Some d"
      "params ''FF1'' = Some f1" "params ''FF2'' = Some f2"
    and "evaluate self m params w = Some (r, w')"
  shows "hal_get_value m ''pid.x.Pgain'' w' = Inr p \<and> hal_get_value m ''pid.y.Pgain'' w' = Inr p \<and>
     hal_get_value m ''pid.x.Igain'' w' = Inr i \<and> hal_get_value m ''pid.y.Igain'' w' = Inr i \<and>
     hal_get_value m ''pid.x.Dgain'' w' = Inr d \<and> hal_get_value m ''pid.y.Dgain'' w' = Inr d \<and>
     hal_get_value m ''pid.x.FF1'' w' = Inr f1 \<and> hal_get_value m ''pid.y.FF1'' w' = Inr f1 \<and>
     hal_get_value m ''pid.x.FF2'' w' = Inr f2 \<and> hal_get_value m ''pid.y.FF2'' w' = Inr f2"
  using assms by (rule evaluate_applies)

text \<open>
  Claim C1, amended, on the scripted machine with a proposal inside the bounds.
\<close>

theorem evaluate_applies_proposal_unclamped_witness:
  "pin_store (mock_machine False)
   \<and> proposal_100 ''P'' = Some 100 \<and> proposal_100 ''I'' = Some 50 \<and> proposal_100 ''D'' = Some 0
   \<and> proposal_100 ''FF1'' = Some 1 \<and> proposal_100 ''FF2'' = Some 0
   \<and> map_option fst (evaluate init_optimizer (mock_machine False) proposal_100 (mock_world [] None))
       = Some (Inr 999)
   \<and> map_option (hal_get_value (mock_machine False) ''pid.x.Pgain'' \<circ> snd)
        (evaluate init_optimizer (mock_machine False) proposal_100 (mock_world [] None))
       = Some (Inr 100)
   \<and> map_option (hal_get_value (mock_machine False) ''pid.y.FF1'' \<circ> snd)
        (evaluate init_optimizer (mock_machine False) proposal_100 (mock_world [] None))
       = Some (Inr 1)"
proof -
  let ?e = "evaluate init_optimizer (mock_machine False) proposal_100 (mock_world [] None)"
  have cfg: "test_distance init_optimizer = 15" "test_feed init_optimizer = 10000"
    by (simp_all add: init_optimizer_def)
  have keys: "proposal_100 ''P'' = Some 100" "proposal_100 ''I'' = Some 50" "proposal_100 ''D'' = Some 0"
    "proposal_100 ''FF1'' = Some 1" "proposal_100 ''FF2'' = Some 0"
    by (simp_all add: proposal_100_def)
  have "evaluate_samples init_optimizer (mock_machine False) proposal_100 (mock_world [] None)
     = Some (Inr [], \<lparr>clock = 0 + 0.02, pins = gains_written proposal_100 Map.empty, frames = [], ctrl_c = None\<rparr>)"
    unfolding mock_world_def
    by (rule evaluate_samples_mock_rest[OF cfg]) (simp_all add: keys)
  then have e: "?e = Some (Inr 999, snd (the ?e))"
    by (simp add: evaluate_def evaluate_cost_def)
  note t = evaluate_applies_proposal_unclamped[OF pin_store_mock keys e]
  have a: "map_option fst ?e = Some (Inr 999)" by (subst e) simp
  have b: "map_option (hal_get_value (mock_machine False) ''pid.x.Pgain'' \<circ> snd) ?e = Some (Inr 100)"
    using t by (subst e) simp
  have c: "map_option (hal_get_value (mock_machine False) ''pid.y.FF1'' \<circ> snd) ?e = Some (Inr 1)"
    using t by (subst e) simp
  show ?thesis
    by (intro conjI) (rule pin_store_mock keys a b c)+
qed

text \<open>
  Claim C2 as stated: \<^verbatim>\<open>evaluate\<close> returns the sentinel 999 only when the concatenated
  batch is empty. A single sample of 999 micrometres (a following error of 0.999 mm while
  the axis moves) is a non-empty batch, and its cost is 999 too.
\<close>

theorem evaluate_sentinel_not_only_for_empty_batch:
  "map_option fst (evaluate_samples init_optimizer (mock_machine False) proposal_100
       (mock_world [rest_frame, moving_frame 0.999] None)) = Some (Inr [999])
   \<and> [999 :: real] \<noteq> []
   \<and> map_option fst (evaluate init_optimizer (mock_machine False) proposal_100
       (mock_world [rest_frame, moving_frame 0.999] None)) = Some (Inr 999)"
proof -
  have "evaluate_samples init_optimizer (mock_machine False) proposal_100
       (mock_world [rest_frame, moving_frame 0.999] None)
     = Some (Inr [\<bar>0.999\<bar> * 1000], \<lparr>clock = 0 + 0.022, pins = gains_written proposal_100 Map.empty,
          frames = tl [], ctrl_c = map_option (\<lambda>n. n - 3) None\<rparr>)"
    unfolding mock_world_def
    by (rule evaluate_samples_mock_moving) (simp_all add: proposal_100_def init_optimizer_def)
  then show ?thesis
    by (simp add: evaluate_def evaluate_cost_single)
qed

text \<open>
  Claim C2, amended. When the two legs return the batch, \<^verbatim>\<open>evaluate\<close> returns the cost
  of the batch: exactly 999 when the batch is empty; for a non-empty batch 999 only when
  its root mean square is 999, or 499.5 with the oscillation penalty. The cost is never
  negative, and it is 0 only for a non-empty batch of zeros: an empty batch is never
  reported as zero error.
\<close>

theorem evaluate_sentinel_for_empty_batch:
  assumes "evaluate_samples self m params w = Some (Inr all_errors, w')"
  shows "evaluate self m params w = Some (Inr (evaluate_cost all_errors), w')
    \<and> (all_errors = [] \<longrightarrow> evaluate_cost all_errors = 999)
    \<and> (all_errors \<noteq> [] \<and> evaluate_cost all_errors = 999
          \<longrightarrow> rms_of all_errors = 999 \<or> rms_of all_errors = 999 / 2)
    \<and> 0 \<le> evaluate_cost all_errors
    \<and> (evaluate_cost all_errors = 0 \<longrightarrow> all_errors \<noteq> [] \<and> (\<forall>e\<in>set all_errors. e = 0))"
proof (intro conjI impI)
  show "evaluate self m params w = Some (Inr (evaluate_cost all_errors), w')"
    using assms by (simp add: evaluate_def)
  show "0 \<le> evaluate_cost all_errors" by (rule evaluate_cost_nonneg)
next
  assume "all_errors = []"
  then show "evaluate_cost all_errors = 999" by (simp add: evaluate_cost_def)
next
  assume "all_errors \<noteq> [] \<and> evaluate_cost all_errors = 999"
  then show "rms_of all_errors = 999 \<or> rms_of all_errors = 999 / 2"
    using evaluate_cost_cases[of all_errors] by auto
next
  assume z: "evaluate_cost all_errors = 0"
  then show "all_errors \<noteq> []" by (auto simp: evaluate_cost_def)
  with z evaluate_cost_cases[of all_errors] have "rms_of all_errors = 0" by auto
  with \<open>all_errors \<noteq> []\<close> show "\<forall>e\<in>set all_errors. e = 0" by (rule rms_of_zero)
qed

text \<open>
  Claim C2, amended, on the scripted machine: an empty batch, the batch of one sample 999
  and the batch of one sample 0.
\<close>

theorem evaluate_sentinel_for_empty_batch_witness:
  "map_option fst (evaluate_samples init_optimizer (mock_machine False) proposal_100 (mock_world [] None))
     = Some (Inr [])
   \<and> map_option fst (evaluate init_optimizer (mock_machine False) proposal_100 (mock_world [] None))
     = Some (Inr 999)
   \<and> map_option fst (evaluate_samples init_optimizer (mock_machine False) proposal_100
        (mock_world [rest_frame, moving_frame 0.999] None)) = Some (Inr [999])
   \<and> [999::real] \<noteq> [] \<and> evaluate_cost [999] = 999 \<and> rms_of [999] = 999
   \<and> map_option fst (evaluate_samples init_optimizer (mock_machine False) proposal_100
        (mock_world [rest_frame, moving_frame 0] None)) = Some (Inr [0])
   \<and> evaluate_cost [0] = 0 \<and> [0::real] \<noteq> []"
proof -
  let ?e1 = "evaluate_samples init_optimizer (mock_machine False) proposal_100 (mock_world [] None)"
  let ?e2 = "evaluate_samples init_optimizer (mock_machine False) proposal_100
        (mock_world [rest_frame, moving_frame 0.999] None)"
  let ?e3 = "evaluate_samples init_optimizer (mock_machine False) proposal_100
        (mock_world [rest_frame, moving_frame 0] None)"
  have cfg: "test_distance init_optimizer = 15" "test_feed init_optimizer = 10000"
    by (simp_all add: init_optimizer_def)
  have keys: "proposal_100 ''P'' \<noteq> None" "proposal_100 ''I'' \<noteq> None" "proposal_100 ''D'' \<noteq> None"
    "proposal_100 ''FF1'' \<noteq> None" "proposal_100 ''FF2'' \<noteq> None"
    by (simp_all add: proposal_100_def)
  have e1: "?e1 = Some (Inr [], snd (the ?e1))"
    unfolding mock_world_def by (rule the_some, rule evaluate_samples_mock_rest[OF cfg keys])
  have e2: "?e2 = Some (Inr [999], snd (the ?e2))"
    unfolding mock_world_def
    by (rule the_some) (simp add: evaluate_samples_mock_moving[OF cfg keys])
  have e3: "?e3 = Some (Inr [0], snd (the ?e3))"
    unfolding mock_world_def
    by (rule the_some) (simp add: evaluate_samples_mock_moving[OF cfg keys])
  note t1 = evaluate_sentinel_for_empty_batch[OF e1]
  note t2 = evaluate_sentinel_for_empty_batch[OF e2]
  note t3 = evaluate_sentinel_for_empty_batch[OF e3]
  have c1: "map_option fst ?e1 = Some (Inr [])" by (subst e1) simp
  have c2: "map_option fst (evaluate init_optimizer (mock_machine False) proposal_100 (mock_world [] None))
     = Some (Inr 999)" using t1 by simp
  have c3: "map_option fst ?e2 = Some (Inr [999])" by (subst e2) simp
  have c4: "map_option fst ?e3 = Some (Inr [0])" by (subst e3) simp
  have c5: "evaluate_cost [999] = 999" "rms_of [999] = 999" "evaluate_cost [0] = 0"
    by (simp_all add: evaluate_cost_single rms_of_def np_mean_def)
  from t2 c5 have "rms_of [999] = 999 \<or> rms_of [999] = 999 / 2" by blast
  from t3 c5 have "\<forall>e\<in>set [0::real]. e = 0" by blast
  show ?thesis using c1 c2 c3 c4 c5 by simp
qed

text \<open>
  Claim C4 as stated: after any sequence of pairs recorded through the objective adapter
  the tracked best cost is the minimum of the recorded costs, and it never regresses. Two
  runs on the scripted machine. One evaluation through the adapter costs 1500 (a following
  error of 1.5 mm): the tracker starts at 999 (lines 35, 179, 197) and stays there, which
  is not the minimum 1500 of the recorded costs. A hybrid run records 10 in its first
  phase and 20 in its second: the second strategy call resets the tracker (lines 178--179),
  so the printed best goes from 10 to 20 and the run ends with the best cost 20, not 10.
\<close>

theorem tracked_best_is_not_min_of_recorded_costs:
  "map_option fst (objective (mock_machine False) [100, 50, 1] [''P'', ''I'', ''FF1'']
       \<lparr>opt = init_optimizer, world = mock_world [rest_frame, moving_frame 1.5] None,
        console = [], hal_file = None\<rparr>) = Some (Inr 1500)
   \<and> map_option (best_rms \<circ> opt \<circ> snd) (objective (mock_machine False) [100, 50, 1] [''P'', ''I'', ''FF1'']
       \<lparr>opt = init_optimizer, world = mock_world [rest_frame, moving_frame 1.5] None,
        console = [], hal_file = None\<rparr>) = Some 999
   \<and> (999 :: real) \<noteq> Min (set [1500])
   \<and> map_option console (main hybrid_scipy (mock_machine False) (Inr ''3'') (Inr ''n'')
        (mock_world script3 None) None)
       = Some [Baseline 60, Progress 1 [120, 60, 1] 10 10, Progress 1 [120, 60, 0, 1, 0] 20 20,
               Complete [''P'' \<mapsto> 120, ''I'' \<mapsto> 60, ''D'' \<mapsto> 0, ''FF1'' \<mapsto> 1, ''FF2'' \<mapsto> 0] 20 60,
               Finished]
   \<and> map_option (best_rms \<circ> opt) (main hybrid_scipy (mock_machine False) (Inr ''3'') (Inr ''n'')
        (mock_world script3 None) None) = Some 20
   \<and> (20 :: real) \<noteq> Min (set [10, 20])"
  by (simp add: run_mock_simps run_mock_more script3_def)

text \<open>
  Claim C4, amended. Within one strategy call the tracked best never regresses. Each
  completed call of the objective adapter prints one progress line and leaves the best at
  the minimum of the cost and the best before; it replaces the best cost and parameters
  only when the cost is strictly lower, and otherwise leaves both as they were. So from any
  state, the library's loop around the adapter ends with the best at the minimum of the
  best it started with and the costs it recorded, the best values it printed never
  increase, and the best is the minimum of the recorded costs alone whenever one of them is
  at most the starting value. \<^verbatim>\<open>optimize_nelder_mead\<close> and \<^verbatim>\<open>optimize_de\<close> reset the best
  to 999 and return the tracked pair; the cost they return is the minimum of 999 and the
  costs recorded during that call. The tracker does not carry over from the first to the
  second strategy call of the hybrid choice: the cost the hybrid returns is the minimum of
  999 and the costs of its second phase. Five records with the costs 50, 30, 45, 10, 20
  leave the best at 10.
\<close>

theorem tracked_best_is_min_within_strategy_call:
  assumes "search m strat budget param_names hist s = Some (r, s')"
  shows "console s' = console s @ printed_since s s'
   \<and> best_rms (opt s') = Min (insert (best_rms (opt s)) (set (progress_costs (printed_since s s'))))
   \<and> sorted_wrt (\<lambda>a b. b \<le> a) (best_rms (opt s) # progress_bests (printed_since s s'))
   \<and> best_rms (opt s') \<le> best_rms (opt s)
   \<and> ((\<exists>c \<in> set (progress_costs (printed_since s s')). c \<le> best_rms (opt s)) \<longrightarrow>
        best_rms (opt s') = Min (set (progress_costs (printed_since s s'))))
   \<and> (\<forall>x q rms q'. objective m x param_names q = Some (Inr rms, q') \<longrightarrow>
        printed_since q q' = [Progress (eval_count (opt q')) x rms (best_rms (opt q'))]
        \<and> best_rms (opt q') = min rms (best_rms (opt q))
        \<and> (rms < best_rms (opt q) \<longrightarrow>
             best_rms (opt q') = rms
             \<and> assign_params (get_current_params m (world q)) x 0 param_names
                 = Inr (best_params (opt q')))
        \<and> (\<not> rms < best_rms (opt q) \<longrightarrow>
             best_rms (opt q') = best_rms (opt q) \<and> best_params (opt q') = best_params (opt q)))
   \<and> (\<forall>sp names q bp br q'.
        optimize_nelder_mead sp m names q = Some (Inr (bp, br), q')
          \<or> optimize_de sp m names q = Some (Inr (bp, br), q') \<longrightarrow>
        bp = best_params (opt q') \<and> br = best_rms (opt q')
        \<and> br = Min (insert 999 (set (progress_costs (printed_since q q'))))
        \<and> sorted_wrt (\<lambda>a b. b \<le> a) (999 # progress_bests (printed_since q q'))
        \<and> ((\<exists>c \<in> set (progress_costs (printed_since q q')). c \<le> 999) \<longrightarrow>
             br = Min (set (progress_costs (printed_since q q')))))
   \<and> (\<forall>sp q bp br q'. run_choice sp m ''3'' q = Some (Inr (Some (bp, br)), q') \<longrightarrow>
        (\<exists>res s1 w2. optimize_de sp m [''P'', ''I'', ''FF1''] q = Some (Inr res, s1)
            \<and> optimize_nelder_mead sp m [''P'', ''I'', ''D'', ''FF1'', ''FF2''] (s1\<lparr>world := w2\<rparr>)
                 = Some (Inr (bp, br), q')
            \<and> br = Min (insert 999 (set (progress_costs (printed_since s1 q'))))))
   \<and> best_rms (record_result p5 20 (record_result p4 10 (record_result p3 45
         (record_result p2 30 (record_result p1 50 init_optimizer))))) = 10"
proof (intro conjI allI impI)
  note sb = search_best[OF assms]
  show "console s' = console s @ printed_since s s'" by (rule sb(1))
  show m: "best_rms (opt s') = Min (insert (best_rms (opt s)) (set (progress_costs (printed_since s s'))))"
    by (rule sb(2))
  show "sorted_wrt (\<lambda>a b. b \<le> a) (best_rms (opt s) # progress_bests (printed_since s s'))"
    by (rule sb(3))
  show "best_rms (opt s') \<le> best_rms (opt s)" by (rule sb(4))
  show "best_rms (record_result p5 20 (record_result p4 10 (record_result p3 45
         (record_result p2 30 (record_result p1 50 init_optimizer))))) = 10"
    by (simp add: best_rms_record_result init_optimizer_def)
  assume "\<exists>c \<in> set (progress_costs (printed_since s s')). c \<le> best_rms (opt s)"
  then obtain c where "c \<in> set (progress_costs (printed_since s s'))" "c \<le> best_rms (opt s)" by blast
  with m show "best_rms (opt s') = Min (set (progress_costs (printed_since s s')))"
    by (simp only: Min_insert_covered[OF finite_set])
next
  fix x q rms q'
  assume ob: "objective m x param_names q = Some (Inr rms, q')"
  from objective_records[OF ob] obtain params0 where
    c: "console q' = console q @ [Progress (eval_count (opt q')) x rms (best_rms (opt q'))]"
    by blast
  from objective_records_params[OF ob] obtain params where
    p: "assign_params (get_current_params m (world q)) x 0 param_names = Inr params"
    and o: "opt q' = record_result params rms (opt q)" by blast
  show "printed_since q q' = [Progress (eval_count (opt q')) x rms (best_rms (opt q'))]"
    using c by (rule printed_since_append)
  show "best_rms (opt q') = min rms (best_rms (opt q))"
    by (simp add: o best_rms_record_result)
  {
    assume "rms < best_rms (opt q)"
    then show "best_rms (opt q') = rms"
      "assign_params (get_current_params m (world q)) x 0 param_names = Inr (best_params (opt q'))"
      by (simp_all add: o p best_rms_record_result best_params_record_result)
  }
  {
    assume "\<not> rms < best_rms (opt q)"
    then show "best_rms (opt q') = best_rms (opt q)" "best_params (opt q') = best_params (opt q)"
      by (simp_all add: o best_rms_record_result best_params_record_result)
  }
next
  fix sp names q bp br q'
  assume a: "optimize_nelder_mead sp m names q = Some (Inr (bp, br), q')
          \<or> optimize_de sp m names q = Some (Inr (bp, br), q')"
  then have f: "best_rms (opt q') = Min (insert 999 (set (progress_costs (printed_since q q'))))
      \<and> sorted_wrt (\<lambda>a b. b \<le> a) (999 # progress_bests (printed_since q q'))
      \<and> bp = best_params (opt q') \<and> br = best_rms (opt q')"
    using optimize_nelder_mead_best[of sp m names q "Inr (bp, br)" q']
      optimize_de_best[of sp m names q "Inr (bp, br)" q'] by auto
  then show "bp = best_params (opt q')" "br = best_rms (opt q')"
    "br = Min (insert 999 (set (progress_costs (printed_since q q'))))"
    "sorted_wrt (\<lambda>a b. b \<le> a) (999 # progress_bests (printed_since q q'))"
    by simp_all
  assume "\<exists>c \<in> set (progress_costs (printed_since q q')). c \<le> 999"
  then obtain c where "c \<in> set (progress_costs (printed_since q q'))" "c \<le> 999" by blast
  with f show "br = Min (set (progress_costs (printed_since q q')))"
    by (simp only: Min_insert_covered[OF finite_set])
next
  fix sp q bp br q'
  assume rc: "run_choice sp m ''3'' q = Some (Inr (Some (bp, br)), q')"
  from run_choice_cases[OF rc]
  show "\<exists>res s1 w2. optimize_de sp m [''P'', ''I'', ''FF1''] q = Some (Inr res, s1)
            \<and> optimize_nelder_mead sp m [''P'', ''I'', ''D'', ''FF1'', ''FF2''] (s1\<lparr>world := w2\<rparr>)
                 = Some (Inr (bp, br), q')
            \<and> br = Min (insert 999 (set (progress_costs (printed_since s1 q'))))"
  proof (elim disjE conjE exE, goal_cases)
    case (1 names r1)
    then show ?case by simp
  next
    case (2 names r1)
    then show ?case by simp
  next
    case 3
    then show ?case by simp
  next
    case (4 e)
    then show ?case by simp
  next
    case (5 res s1 e w2)
    then show ?case by simp
  next
    case (6 res s1 w2 r3)
    from 6(5) have r3': "r3 = Inr (bp, br)" by (cases r3) auto
    from optimize_nelder_mead_best[OF 6(4)] r3'
    have "br = Min (insert 999 (set (progress_costs (printed_since (s1\<lparr>world := w2\<rparr>) q'))))"
      by auto
    then have "br = Min (insert 999 (set (progress_costs (printed_since s1 q'))))"
      by (simp add: printed_since_def)
    with 6(2) 6(4) r3' show ?case by blast
  qed
qed

text \<open>
  Claim C4, amended, on the scripted machine: five evaluations with the costs
  50, 30, 45, 10, 20 under the library's loop and under \<^verbatim>\<open>optimize_nelder_mead\<close>, and
  the hybrid choice with one evaluation in each phase.
\<close>

theorem tracked_best_is_min_within_strategy_call_witness:
  "(\<exists>r s'. search (mock_machine False) (scripted_strategy proposals30) 5 [''P'', ''I'', ''FF1''] []
        \<lparr>opt = init_optimizer, world = mock_world script5 None, console = [], hal_file = None\<rparr>
      = Some (r, s')
     \<and> progress_costs (console s') = [50, 30, 45, 10, 20]
     \<and> progress_bests (console s') = [50, 30, 30, 10, 10]
     \<and> best_rms (opt s') = Min (insert (best_rms init_optimizer) (set [50, 30, 45, 10, 20]))
     \<and> sorted_wrt (\<lambda>a b. b \<le> a) (best_rms init_optimizer # [50, 30, 30, 10, 10])
     \<and> (\<exists>c \<in> set [50, 30, 45, 10, 20]. c \<le> best_rms init_optimizer)
     \<and> best_rms (opt s') = Min (set [50, 30, 45, 10, 20])
     \<and> best_rms (opt s') = 10)
   \<and> (\<exists>bp s'. optimize_nelder_mead (scripted_scipy proposals30 5) (mock_machine False) [''P'', ''I'', ''FF1'']
        \<lparr>opt = init_optimizer, world = mock_world script5 None, console = [], hal_file = None\<rparr>
      = Some (Inr (bp, 10), s')
     \<and> progress_costs (console s') = [50, 30, 45, 10, 20]
     \<and> bp = best_params (opt s')
     \<and> (10 :: real) = Min (insert 999 (set [50, 30, 45, 10, 20])))
   \<and> (\<exists>bp s' s1. run_choice hybrid_scipy (mock_machine False) ''3''
        \<lparr>opt = init_optimizer,
         world = mock_world [rest_frame, moving_frame 0.01, rest_frame,
                             rest_frame, moving_frame 0.02, rest_frame] None,
         console = [], hal_file = None\<rparr>
      = Some (Inr (Some (bp, 20)), s')
     \<and> progress_costs (console s') = [10, 20]
     \<and> (20 :: real) = Min (insert 999 (set (progress_costs (printed_since s1 s')))))"
proof -
  let ?s0 = "\<lparr>opt = init_optimizer, world = mock_world script5 None, console = [], hal_file = None\<rparr>"
  let ?h0 = "\<lparr>opt = init_optimizer,
         world = mock_world [rest_frame, moving_frame 0.01, rest_frame,
                             rest_frame, moving_frame 0.02, rest_frame] None,
         console = [], hal_file = None\<rparr>"
  let ?cs = "[Progress 1 [100, 50, 1] 50 50, Progress 2 [120, 60, 1] 30 30,
             Progress 3 [140, 70, 1] 45 30, Progress 4 [160, 80, 1] 10 10, Progress 5 [160, 80, 1] 20 10]"
  from five_search obtain s' where
    se: "search (mock_machine False) (scripted_strategy proposals30) 5 [''P'', ''I'', ''FF1''] [] ?s0
           = Some (Inr (), s')"
    and c: "console s' = ?cs" by blast
  note t = tracked_best_is_min_within_strategy_call[OF se]
  note t2 = t[THEN conjunct2, THEN conjunct1]
  note t3 = t[THEN conjunct2, THEN conjunct2, THEN conjunct1]
  note t5 = t[THEN conjunct2, THEN conjunct2, THEN conjunct2, THEN conjunct2, THEN conjunct1]
  note t7 = t[THEN conjunct2, THEN conjunct2, THEN conjunct2, THEN conjunct2, THEN conjunct2,
      THEN conjunct2, THEN conjunct1, rule_format]
  note t8 = t[THEN conjunct2, THEN conjunct2, THEN conjunct2, THEN conjunct2, THEN conjunct2,
      THEN conjunct2, THEN conjunct2, THEN conjunct1, rule_format]
  have ps: "printed_since ?s0 s' = ?cs" by (simp add: printed_since_def c)
  have pc: "progress_costs (console s') = [50, 30, 45, 10, 20]"
    "progress_bests (console s') = [50, 30, 30, 10, 10]" by (simp_all add: c)
  from t2 have m: "best_rms (opt s') = Min (insert (best_rms init_optimizer) (set [50, 30, 45, 10, 20]))"
    by (simp add: ps)
  from t3 have so: "sorted_wrt (\<lambda>a b. b \<le> a) (best_rms init_optimizer # [50, 30, 30, 10, 10])"
    by (simp add: ps)
  have ex: "\<exists>c \<in> set [50, 30, 45, 10, 20]. c \<le> best_rms init_optimizer"
    by (simp add: init_optimizer_def)
  then have "\<exists>c \<in> set (progress_costs (printed_since ?s0 s')). c \<le> best_rms (opt ?s0)"
    by (simp add: ps)
  with t5 have "best_rms (opt s') = Min (set (progress_costs (printed_since ?s0 s')))" by (rule mp)
  then have m2: "best_rms (opt s') = Min (set [50, 30, 45, 10, 20])" by (simp add: ps)
  then have m3: "best_rms (opt s') = 10" by simp
  have one: "\<exists>r s'. search (mock_machine False) (scripted_strategy proposals30) 5 [''P'', ''I'', ''FF1''] [] ?s0
      = Some (r, s')
     \<and> progress_costs (console s') = [50, 30, 45, 10, 20]
     \<and> progress_bests (console s') = [50, 30, 30, 10, 10]
     \<and> best_rms (opt s') = Min (insert (best_rms init_optimizer) (set [50, 30, 45, 10, 20]))
     \<and> sorted_wrt (\<lambda>a b. b \<le> a) (best_rms init_optimizer # [50, 30, 30, 10, 10])
     \<and> (\<exists>c \<in> set [50, 30, 45, 10, 20]. c \<le> best_rms init_optimizer)
     \<and> best_rms (opt s') = Min (set [50, 30, 45, 10, 20])
     \<and> best_rms (opt s') = 10"
    using se pc m so ex m2 m3 by blast
  from five_evaluations obtain bp q' where
    nm: "optimize_nelder_mead (scripted_scipy proposals30 5) (mock_machine False) [''P'', ''I'', ''FF1''] ?s0
           = Some (Inr (bp, 10), q')"
    and cq: "console q' = ?cs" by blast
  have pq: "printed_since ?s0 q' = ?cs" by (simp add: printed_since_def cq)
  from t7[OF disjI1, OF nm] have "bp = best_params (opt q')
      \<and> (10 :: real) = Min (insert 999 (set (progress_costs (printed_since ?s0 q'))))"
    by blast
  then have nm2: "bp = best_params (opt q')" "(10 :: real) = Min (insert 999 (set [50, 30, 45, 10, 20]))"
    by (simp_all add: pq)
  have two: "\<exists>bp s'. optimize_nelder_mead (scripted_scipy proposals30 5) (mock_machine False) [''P'', ''I'', ''FF1''] ?s0
      = Some (Inr (bp, 10), s')
     \<and> progress_costs (console s') = [50, 30, 45, 10, 20]
     \<and> bp = best_params (opt s')
     \<and> (10 :: real) = Min (insert 999 (set [50, 30, 45, 10, 20]))"
    using nm nm2 by (intro exI[of _ bp] exI[of _ q']) (simp add: cq)
  from hybrid_choice obtain hp h' where
    hy: "run_choice hybrid_scipy (mock_machine False) ''3'' ?h0 = Some (Inr (Some (hp, 20)), h')"
    and ch: "console h' = [Progress 1 [120, 60, 1] 10 10, Progress 1 [120, 60, 0, 1, 0] 20 20]"
    by blast
  from t8[OF hy] obtain s1 where "(20 :: real) = Min (insert 999 (set (progress_costs (printed_since s1 h'))))"
    by blast
  with hy ch have three: "\<exists>bp s' s1. run_choice hybrid_scipy (mock_machine False) ''3'' ?h0
      = Some (Inr (Some (bp, 20)), s')
     \<and> progress_costs (console s') = [10, 20]
     \<and> (20 :: real) = Min (insert 999 (set (progress_costs (printed_since s1 s'))))"
    by (intro exI[of _ hp] exI[of _ h'] exI[of _ s1]) simp
  from one two three show ?thesis by (intro conjI)
qed







text \<open>
  Claim C9. The cost is a function of the sample sequence alone: two evaluations, of any
  parameter sets on any machines, whose two legs return the same concatenated batch return
  the same cost.
\<close>

theorem evaluate_cost_determined_by_samples:
  assumes "evaluate_samples self m params w = Some (Inr batch, w')"
    and "evaluate_samples self2 m2 params2 w2 = Some (Inr batch, w2')"
  shows "evaluate self m params w = Some (Inr (evaluate_cost batch), w')
     \<and> evaluate self2 m2 params2 w2 = Some (Inr (evaluate_cost batch), w2')
     \<and> map_option fst (evaluate self m params w) = map_option fst (evaluate self2 m2 params2 w2)"
  using assms by (simp add: evaluate_def)

text \<open>
  Claim C9, on the scripted machine: two proposals, one of them with an operator about to
  interrupt, the same samples and the same cost 50.
\<close>

theorem evaluate_cost_determined_by_samples_witness:
  "map_option fst (evaluate_samples init_optimizer (mock_machine False) proposal_100
       (mock_world [rest_frame, moving_frame 0.05] None)) = Some (Inr [50])
   \<and> map_option fst (evaluate_samples init_optimizer (mock_machine False) proposal_500
       (mock_world [rest_frame, moving_frame 0.05, rest_frame] (Some 7))) = Some (Inr [50])
   \<and> map_option fst (evaluate init_optimizer (mock_machine False) proposal_100
       (mock_world [rest_frame, moving_frame 0.05] None))
     = map_option fst (evaluate init_optimizer (mock_machine False) proposal_500
       (mock_world [rest_frame, moving_frame 0.05, rest_frame] (Some 7)))
   \<and> map_option fst (evaluate init_optimizer (mock_machine False) proposal_100
       (mock_world [rest_frame, moving_frame 0.05] None)) = Some (Inr 50)"
proof -
  let ?e1 = "evaluate_samples init_optimizer (mock_machine False) proposal_100
       (mock_world [rest_frame, moving_frame 0.05] None)"
  let ?e2 = "evaluate_samples init_optimizer (mock_machine False) proposal_500
       (mock_world [rest_frame, moving_frame 0.05, rest_frame] (Some 7))"
  have cfg: "test_distance init_optimizer = 15" "test_feed init_optimizer = 10000"
    by (simp_all add: init_optimizer_def)
  have k1: "proposal_100 ''P'' \<noteq> None" "proposal_100 ''I'' \<noteq> None" "proposal_100 ''D'' \<noteq> None"
    "proposal_100 ''FF1'' \<noteq> None" "proposal_100 ''FF2'' \<noteq> None"
    by (simp_all add: proposal_100_def)
  have k5: "proposal_500 ''P'' \<noteq> None" "proposal_500 ''I'' \<noteq> None" "proposal_500 ''D'' \<noteq> None"
    "proposal_500 ''FF1'' \<noteq> None" "proposal_500 ''FF2'' \<noteq> None"
    by (simp_all add: proposal_500_def)
  have e1: "?e1 = Some (Inr [50], snd (the ?e1))"
    unfolding mock_world_def by (rule the_some) (simp add: evaluate_samples_mock_moving[OF cfg k1])
  have e2: "?e2 = Some (Inr [50], snd (the ?e2))"
    unfolding mock_world_def by (rule the_some) (simp add: evaluate_samples_mock_moving[OF cfg k5])
  note t = evaluate_cost_determined_by_samples[OF e1 e2]
  have a: "map_option fst ?e1 = Some (Inr [50])" by (subst e1) simp
  have b: "map_option fst ?e2 = Some (Inr [50])" by (subst e2) simp
  have c: "map_option fst (evaluate init_optimizer (mock_machine False) proposal_100
       (mock_world [rest_frame, moving_frame 0.05] None)) = Some (Inr 50)"
    using t by (simp add: evaluate_cost_single)
  show ?thesis
    using a b c t by simp
qed

text \<open>
  Claim C10. If every telemetry read fails, each \<^verbatim>\<open>getp\<close> returns 0, the sampling
  loop appends nothing, both legs return an empty batch and \<^verbatim>\<open>evaluate\<close> returns the
  sentinel 999. The evaluation returns because the clock advances with every sleep; no
  Ctrl-C arrives, the feed is not 0 and the proposal has all five parameters.
\<close>

theorem evaluate_sentinel_when_all_reads_fail:
  assumes "reads_fail m" and "sleep_advances m" and "never_interrupted m"
    and "test_feed self \<noteq> 0"
    and "params ''P'' = Some p" "params ''I'' = Some i" "params ''D'' = Some d"
      "params ''FF1'' = Some f1" "params ''FF2'' = Some f2"
  shows "getp m name w = 0
     \<and> (\<exists>w'. collect_loop m start timeout errors w = Some (Inr errors, w'))
     \<and> (\<exists>w'. collect_during_move self m x y w = Some (Inr [], w'))
     \<and> (\<exists>w'. evaluate_samples self m params w = Some (Inr [], w'))
     \<and> (\<exists>w'. evaluate self m params w = Some (Inr 999, w'))"
proof (intro conjI)
  show "getp m name w = 0" using assms(1) by (rule getp_reads_fail)
  show "\<exists>w'. collect_loop m start timeout errors w = Some (Inr errors, w')"
    using assms(2,3,1) by (rule collect_loop_reads_fail)
  show "\<exists>w'. collect_during_move self m x y w = Some (Inr [], w')"
    using assms(2,3,1,4) by (rule collect_during_move_reads_fail)
  show s: "\<exists>w'. evaluate_samples self m params w = Some (Inr [], w')"
    using assms(2,3,1,4-9) by (rule evaluate_samples_reads_fail)
  from s show "\<exists>w'. evaluate self m params w = Some (Inr 999, w')"
    by (auto simp: evaluate_def evaluate_cost_def)
qed

text \<open>
  Claim C10, on the scripted machine with the HAL down while the script says the axes
  move.
\<close>

theorem evaluate_sentinel_when_all_reads_fail_witness:
  "reads_fail (calm_machine True) \<and> sleep_advances (calm_machine True)
   \<and> never_interrupted (calm_machine True) \<and> test_feed init_optimizer \<noteq> 0
   \<and> proposal_100 ''P'' = Some 100 \<and> proposal_100 ''I'' = Some 50 \<and> proposal_100 ''D'' = Some 0
   \<and> proposal_100 ''FF1'' = Some 1 \<and> proposal_100 ''FF2'' = Some 0
   \<and> (\<exists>w'. evaluate init_optimizer (calm_machine True) proposal_100
               (mock_world [moving_frame 0.05, moving_frame 0.05] None) = Some (Inr 999, w'))"
proof -
  have keys: "proposal_100 ''P'' = Some 100" "proposal_100 ''I'' = Some 50" "proposal_100 ''D'' = Some 0"
    "proposal_100 ''FF1'' = Some 1" "proposal_100 ''FF2'' = Some 0"
    by (simp_all add: proposal_100_def)
  have feed: "test_feed init_optimizer \<noteq> 0" by (simp add: init_optimizer_def)
  note t = evaluate_sentinel_when_all_reads_fail[OF reads_fail_calm sleep_advances_calm
      never_interrupted_calm feed keys,
      of "''pid.x.error''" "mock_world [moving_frame 0.05, moving_frame 0.05] None"]
  then have "\<exists>w'. evaluate init_optimizer (calm_machine True) proposal_100
               (mock_world [moving_frame 0.05, moving_frame 0.05] None) = Some (Inr 999, w')"
    by blast
  then show ?thesis
    using reads_fail_calm sleep_advances_calm never_interrupted_calm feed keys by blast
qed

end
